theory Spec2Isabelle
  imports Main
begin

section \<open>The user controller of the Express API (backend/controllers/userController.js)\<close>

text \<open>
  The controller keeps a module-level array \<open>users\<close> of plain JavaScript objects and
  exposes five request handlers. Each handler is embedded as a function from the current
  array (and the request's parameters) to the response it sends and, for the mutating
  handlers, the array afterwards.

  \<^item> A JavaScript value is a \<open>jsval\<close>; every kind of value a JSON body can carry is there.
    Numbers are the integer-valued ones (\<open>users.length + 1\<close>, the result of
    \<open>parseInt\<close>), as unbounded integers: rounding beyond \<open>2^53\<close> is not modelled.
  \<^item> An object used by the controller (a stored user, a request body, a response's
    \<open>data\<close>) is a map from property names to values, \<open>jsobj\<close>. Reading a property
    that is absent gives \<open>undefined\<close> (\<open>get_prop\<close>). \<open>req.body\<close> is always an object: the
    server installs \<open>express.json()\<close>, which leaves \<open>{}\<close> when a request has no body.
  \<^item> A string is the list of its UTF-16 code units, each a natural number (below
    \<open>65536\<close> in the runtime; the functions here are defined on every natural number).
    \<open>trim\<close> and \<open>parseInt\<close> are defined by the language standard and are written out
    with its full white space set. \<open>toLowerCase\<close> runs on the Unicode case tables of the
    runtime, which are no part of the repository: it is a parameter \<open>toLowerCase\<close> of
    every function that calls it, so what is proved holds for whatever the runtime
    computes.
  \<^item> \<open>new Date().toISOString()\<close> reads the clock; the string it returns is a parameter
    \<open>now\<close> of the handler.
  \<^item> Every handler's body is a \<open>try\<close> block whose \<open>catch\<close> answers 500. The only
    exceptions the code can raise are the TypeErrors of calling \<open>toLowerCase\<close> or \<open>trim\<close>
    on a value that is not a string; they are the \<open>InternalError\<close> branches below.
  \<^item> Property names stay Isabelle strings: the controller only compares them.
\<close>

subsection \<open>Values and objects\<close>

type_synonym code_unit = nat

type_synonym jsstring = "code_unit list"

datatype jsval =
    JUndefined
  | JNull
  | JBool bool
  | JNum int
  | JStr jsstring
  | JArr "jsval list"
  | JObj "(string \<times> jsval) list"

type_synonym jsobj = "string \<Rightarrow> jsval option"

text \<open>Property access \<open>o.k\<close>: \<open>undefined\<close> when the object has no such property.\<close>

definition get_prop :: "jsobj \<Rightarrow> string \<Rightarrow> jsval" where
  "get_prop obj k = (case obj k of None \<Rightarrow> JUndefined | Some v \<Rightarrow> v)"

text \<open>Truthiness, as \<open>!x\<close> reads it.\<close>

fun truthy :: "jsval \<Rightarrow> bool" where
  "truthy JUndefined = False"
| "truthy JNull = False"
| "truthy (JBool b) = b"
| "truthy (JNum n) = (n \<noteq> 0)"
| "truthy (JStr s) = (s \<noteq> [])"
| "truthy (JArr xs) = True"
| "truthy (JObj kvs) = True"

subsection \<open>String primitives\<close>

text \<open>The code units of a string written in ASCII.\<close>

definition ascii :: "string \<Rightarrow> jsstring" where
  "ascii s = map of_char s"

text \<open>
  White space and line terminators of ECMAScript (12.2, 12.3): U+0009 to U+000D, U+0020,
  U+00A0, U+1680, U+2000 to U+200A, U+2028, U+2029, U+202F, U+205F, U+3000 and U+FEFF.
  \<open>String.prototype.trim\<close> strips them from both ends, \<open>parseInt\<close> from the front.
\<close>

definition is_ws :: "code_unit \<Rightarrow> bool" where
  "is_ws n =
     ((9 \<le> n \<and> n \<le> 13) \<or> n = 32 \<or> n = 160 \<or> n = 5760 \<or> (8192 \<le> n \<and> n \<le> 8202) \<or>
      n = 8232 \<or> n = 8233 \<or> n = 8239 \<or> n = 8287 \<or> n = 12288 \<or> n = 65279)"

definition trim :: "jsstring \<Rightarrow> jsstring" where
  "trim s = rev (dropWhile is_ws (rev (dropWhile is_ws s)))"

text \<open>
  \<open>String.prototype.toLowerCase\<close> of the runtime, as a parameter: a function from strings
  to strings.
\<close>

type_synonym lowering = "jsstring \<Rightarrow> jsstring"

text \<open>
  \<open>v.toLowerCase()\<close> and \<open>v.trim()\<close> on an arbitrary value: \<open>None\<close> is the TypeError
  raised when \<open>v\<close> is not a string (no such method, or a property read on
  \<open>undefined\<close>/\<open>null\<close>).
\<close>

fun call_toLowerCase :: "lowering \<Rightarrow> jsval \<Rightarrow> jsstring option" where
  "call_toLowerCase toLowerCase (JStr s) = Some (toLowerCase s)"
| "call_toLowerCase toLowerCase _ = None"

fun call_trim :: "jsval \<Rightarrow> jsstring option" where
  "call_trim (JStr s) = Some (trim s)"
| "call_trim _ = None"

subsection \<open>parseInt\<close>

text \<open>
  \<open>parseInt(id)\<close> with no radix (ECMAScript 19.2.5): skip leading white space, read an
  optional sign, switch to radix 16 after a \<open>0x\<close>/\<open>0X\<close> prefix, take the longest prefix of
  digits of the radix; \<open>NaN\<close> (here \<open>None\<close>) when that prefix is empty.
\<close>

definition digit_val :: "code_unit \<Rightarrow> nat option" where
  "digit_val n =
     (if 48 \<le> n \<and> n \<le> 57 then Some (n - 48)
      else if 97 \<le> n \<and> n \<le> 122 then Some (n - 87)
      else if 65 \<le> n \<and> n \<le> 90 then Some (n - 55)
      else None)"

definition is_radix_digit :: "nat \<Rightarrow> code_unit \<Rightarrow> bool" where
  "is_radix_digit R c = (case digit_val c of None \<Rightarrow> False | Some d \<Rightarrow> d < R)"

fun digits_value :: "nat \<Rightarrow> nat \<Rightarrow> jsstring \<Rightarrow> nat" where
  "digits_value R acc [] = acc"
| "digits_value R acc (c # cs) =
     digits_value R (acc * R + (case digit_val c of None \<Rightarrow> 0 | Some d \<Rightarrow> d)) cs"

definition parseInt :: "jsstring \<Rightarrow> int option" where
  "parseInt str =
     (let S = dropWhile is_ws str;
          neg = (S \<noteq> [] \<and> hd S = of_char CHR ''-'');
          S1 = (if S \<noteq> [] \<and> (hd S = of_char CHR ''+'' \<or> hd S = of_char CHR ''-'')
                then tl S else S);
          hex = (take 2 S1 = ascii ''0x'' \<or> take 2 S1 = ascii ''0X'');
          S2 = (if hex then drop 2 S1 else S1);
          R = (if hex then 16 else 10);
          Z = takeWhile (is_radix_digit R) S2
      in if Z = [] then None
         else Some ((if neg then - 1 else 1) * int (digits_value R 0 Z)))"

subsection \<open>Responses\<close>

text \<open>
  A handler answers with \<open>res.status(c).json(...)\<close>. A failure is one of the controller's
  five error answers; a success carries the \<open>data\<close> object of the envelope (the other
  properties of a success envelope are the constants \<open>success\<close> and \<open>message\<close>, and for
  \<open>getAllUsers\<close> the \<open>count\<close> and a \<open>timestamp\<close>).
  \<open>ValidationError\<close> is the 400 "Validation failed", \<open>InvalidIdentifier\<close> the 400
  "Invalid user ID", \<open>NotFound\<close> the 404 "User not found", \<open>Conflict\<close> the 409 "User
  already exists" and \<open>InternalError\<close> the 500 of a \<open>catch\<close> block.
\<close>

datatype error = ValidationError | Conflict | InvalidIdentifier | NotFound | InternalError

fun error_status :: "error \<Rightarrow> nat" where
  "error_status ValidationError = 400"
| "error_status InvalidIdentifier = 400"
| "error_status NotFound = 404"
| "error_status Conflict = 409"
| "error_status InternalError = 500"

subsection \<open>The collection\<close>

text \<open>The module-level \<open>users\<close> array; \<open>t0\<close> is the clock reading when the module loads.\<close>

definition initial_users :: "jsstring \<Rightarrow> jsobj list" where
  "initial_users t0 =
     [[''id'' \<mapsto> JNum 1, ''username'' \<mapsto> JStr (ascii ''admin''),
       ''email'' \<mapsto> JStr (ascii ''admin@company.com''), ''role'' \<mapsto> JStr (ascii ''admin''),
       ''createdAt'' \<mapsto> JStr t0]]"

text \<open>
  The public projection every read and \<open>createUser\<close> build:
  \<open>{id: user.id, username: user.username, email: user.email, role: user.role,
  createdAt: user.createdAt}\<close>.
\<close>

definition sanitizedUser :: "jsobj \<Rightarrow> jsobj" where
  "sanitizedUser user =
     [''id'' \<mapsto> get_prop user ''id'', ''username'' \<mapsto> get_prop user ''username'',
      ''email'' \<mapsto> get_prop user ''email'', ''role'' \<mapsto> get_prop user ''role'',
      ''createdAt'' \<mapsto> get_prop user ''createdAt'']"

text \<open>\<open>users.findIndex(p)\<close>; \<open>None\<close> is the \<open>-1\<close> of no match.\<close>

fun findIndex :: "('a \<Rightarrow> bool) \<Rightarrow> 'a list \<Rightarrow> nat option" where
  "findIndex p [] = None"
| "findIndex p (x # xs) =
     (if p x then Some 0 else (case findIndex p xs of None \<Rightarrow> None | Some i \<Rightarrow> Some (Suc i)))"

text \<open>The test \<open>u.id === userId\<close> against the number \<open>parseInt\<close> returned.\<close>

definition has_id :: "int \<Rightarrow> jsobj \<Rightarrow> bool" where
  "has_id userId u = (get_prop u ''id'' = JNum userId)"

subsection \<open>getAllUsers and getUserById\<close>

definition getAllUsers :: "jsobj list \<Rightarrow> jsobj list" where
  "getAllUsers users = map sanitizedUser users"

definition getUserById :: "jsobj list \<Rightarrow> jsstring \<Rightarrow> error + jsobj" where
  "getUserById users ident =
     (case parseInt ident of
        None \<Rightarrow> Inl InvalidIdentifier
      | Some userId \<Rightarrow>
          (case find (has_id userId) users of
             None \<Rightarrow> Inl NotFound
           | Some user \<Rightarrow> Inr (sanitizedUser user)))"

subsection \<open>createUser\<close>

text \<open>
  The callback of \<open>users.find\<close> in \<open>createUser\<close>:
  \<open>u.username.toLowerCase() === username.toLowerCase() ||
   u.email.toLowerCase() === email.toLowerCase()\<close>,
  evaluated left to right with the short circuit of \<open>||\<close>; \<open>None\<close> when one of the calls
  raises.
\<close>

definition same_user :: "lowering \<Rightarrow> jsval \<Rightarrow> jsval \<Rightarrow> jsobj \<Rightarrow> bool option" where
  "same_user toLowerCase username email u =
     (case call_toLowerCase toLowerCase (get_prop u ''username'') of
        None \<Rightarrow> None
      | Some a \<Rightarrow>
          (case call_toLowerCase toLowerCase username of
             None \<Rightarrow> None
           | Some b \<Rightarrow>
               if a = b then Some True
               else (case call_toLowerCase toLowerCase (get_prop u ''email'') of
                       None \<Rightarrow> None
                     | Some c \<Rightarrow>
                         (case call_toLowerCase toLowerCase email of
                            None \<Rightarrow> None
                          | Some d \<Rightarrow> Some (c = d)))))"

text \<open>
  \<open>users.find(callback)\<close> with a callback that may raise: \<open>None\<close> when it raises before
  a match, \<open>Some None\<close> when no element matches, \<open>Some (Some u)\<close> for the first match.
\<close>

fun find_existing ::
  "lowering \<Rightarrow> jsval \<Rightarrow> jsval \<Rightarrow> jsobj list \<Rightarrow> jsobj option option" where
  "find_existing toLowerCase username email [] = Some None"
| "find_existing toLowerCase username email (u # us) =
     (case same_user toLowerCase username email u of
        None \<Rightarrow> None
      | Some True \<Rightarrow> Some (Some u)
      | Some False \<Rightarrow> find_existing toLowerCase username email us)"

text \<open>The object literal \<open>newUser\<close>; \<open>None\<close> when \<open>trim\<close> or \<open>toLowerCase\<close> raises.\<close>

definition newUser ::
  "lowering \<Rightarrow> jsobj list \<Rightarrow> jsval \<Rightarrow> jsval \<Rightarrow> jsval \<Rightarrow> jsstring \<Rightarrow> jsobj option" where
  "newUser toLowerCase users username email role now =
     (case call_trim username of
        None \<Rightarrow> None
      | Some un \<Rightarrow>
          (case call_trim email of
             None \<Rightarrow> None
           | Some em \<Rightarrow>
               Some [''id'' \<mapsto> JNum (int (length users) + 1), ''username'' \<mapsto> JStr un,
                     ''email'' \<mapsto> JStr (toLowerCase em), ''role'' \<mapsto> role,
                     ''createdAt'' \<mapsto> JStr now]))"

definition createUser ::
  "lowering \<Rightarrow> jsobj list \<Rightarrow> jsobj \<Rightarrow> jsstring \<Rightarrow> (error + jsobj) \<times> jsobj list" where
  "createUser toLowerCase users body now =
     (let username = get_prop body ''username'';
          email = get_prop body ''email'';
          password = get_prop body ''password'';
          role = (if get_prop body ''role'' = JUndefined then JStr (ascii ''user'')
                  else get_prop body ''role'')
      in if \<not> truthy username \<or> \<not> truthy email \<or> \<not> truthy password
         then (Inl ValidationError, users)
         else (case find_existing toLowerCase username email users of
                 None \<Rightarrow> (Inl InternalError, users)
               | Some (Some existingUser) \<Rightarrow> (Inl Conflict, users)
               | Some None \<Rightarrow>
                   (case newUser toLowerCase users username email role now of
                      None \<Rightarrow> (Inl InternalError, users)
                    | Some nu \<Rightarrow> (Inr (sanitizedUser nu), users @ [nu]))))"

subsection \<open>updateUser\<close>

text \<open>
  \<open>{...users[userIndex], ...updates, id: userId, updatedAt: new Date().toISOString()}\<close>:
  later entries win.
\<close>

definition updatedUser :: "jsobj \<Rightarrow> jsobj \<Rightarrow> int \<Rightarrow> jsstring \<Rightarrow> jsobj" where
  "updatedUser user updates userId now =
     (user ++ updates)(''id'' \<mapsto> JNum userId, ''updatedAt'' \<mapsto> JStr now)"

definition sanitizedUpdatedUser :: "jsobj \<Rightarrow> jsobj" where
  "sanitizedUpdatedUser user =
     [''id'' \<mapsto> get_prop user ''id'', ''username'' \<mapsto> get_prop user ''username'',
      ''email'' \<mapsto> get_prop user ''email'', ''role'' \<mapsto> get_prop user ''role'',
      ''createdAt'' \<mapsto> get_prop user ''createdAt'',
      ''updatedAt'' \<mapsto> get_prop user ''updatedAt'']"

definition updateUser ::
  "jsobj list \<Rightarrow> jsstring \<Rightarrow> jsobj \<Rightarrow> jsstring \<Rightarrow> (error + jsobj) \<times> jsobj list" where
  "updateUser users ident updates now =
     (case parseInt ident of
        None \<Rightarrow> (Inl InvalidIdentifier, users)
      | Some userId \<Rightarrow>
          (case findIndex (has_id userId) users of
             None \<Rightarrow> (Inl NotFound, users)
           | Some userIndex \<Rightarrow>
               (let nu = updatedUser (users ! userIndex) updates userId now
                in (Inr (sanitizedUpdatedUser nu), users[userIndex := nu]))))"

subsection \<open>deleteUser\<close>

text \<open>
  \<open>users.splice(userIndex, 1)[0]\<close> removes the element at \<open>userIndex\<close> and returns it;
  the answer's \<open>data\<close> is \<open>{id: deletedUser.id, username: deletedUser.username}\<close>.
\<close>

definition deleteUser :: "jsobj list \<Rightarrow> jsstring \<Rightarrow> (error + jsobj) \<times> jsobj list" where
  "deleteUser users ident =
     (case parseInt ident of
        None \<Rightarrow> (Inl InvalidIdentifier, users)
      | Some userId \<Rightarrow>
          (case findIndex (has_id userId) users of
             None \<Rightarrow> (Inl NotFound, users)
           | Some userIndex \<Rightarrow>
               (let deletedUser = users ! userIndex
                in (Inr [''id'' \<mapsto> get_prop deletedUser ''id'',
                         ''username'' \<mapsto> get_prop deletedUser ''username''],
                    take userIndex users @ drop (Suc userIndex) users))))"

subsection \<open>Sequences of requests\<close>

text \<open>
  The router maps each request to one handler; a sequence of requests threads the array
  through them. The clock reading of each mutating request travels with it.
\<close>

datatype request =
    GetAll
  | GetById jsstring
  | Create jsobj jsstring
  | Update jsstring jsobj jsstring
  | Delete jsstring

fun apply_request :: "lowering \<Rightarrow> jsobj list \<Rightarrow> request \<Rightarrow> jsobj list" where
  "apply_request toLowerCase users GetAll = users"
| "apply_request toLowerCase users (GetById ident) = users"
| "apply_request toLowerCase users (Create body now) =
     snd (createUser toLowerCase users body now)"
| "apply_request toLowerCase users (Update ident updates now) =
     snd (updateUser users ident updates now)"
| "apply_request toLowerCase users (Delete ident) = snd (deleteUser users ident)"

definition run :: "lowering \<Rightarrow> request list \<Rightarrow> jsobj list \<Rightarrow> jsobj list" where
  "run toLowerCase reqs users = foldl (apply_request toLowerCase) users reqs"

subsection \<open>What is known of the runtime's toLowerCase\<close>

text \<open>
  On a string of Basic Latin code units (below 128) \<open>toLowerCase\<close> maps \<open>A\<close>..\<open>Z\<close> to
  \<open>a\<close>..\<open>z\<close> and leaves every other unit as it is (the Unicode case mappings of these
  units, none of them conditional). \<open>lowers_basic_latin\<close> says so of a lowering; it is the
  one fact about the runtime that the sample runs below rest on. \<open>basic_latin_lower\<close> is
  the simplest function that has it, and stands in for the runtime where a run is
  evaluated on Basic Latin requests.
\<close>

definition basic_latin :: "jsstring \<Rightarrow> bool" where
  "basic_latin s = list_all (\<lambda>n. n < 128) s"

definition lower_unit :: "code_unit \<Rightarrow> code_unit" where
  "lower_unit n = (if 65 \<le> n \<and> n \<le> 90 then n + 32 else n)"

definition basic_latin_lower :: lowering where
  "basic_latin_lower s = map lower_unit s"

definition lowers_basic_latin :: "lowering \<Rightarrow> bool" where
  "lowers_basic_latin toLowerCase =
     (\<forall>s. basic_latin s \<longrightarrow> toLowerCase s = basic_latin_lower s)"

section \<open>Notions of the specification\<close>

text \<open>
  A valid integer, as the specification's \<open>InvalidIdentifier\<close> reads it: an optional sign
  followed by one or more decimal digits and nothing else.
\<close>

definition is_dec_digit :: "code_unit \<Rightarrow> bool" where
  "is_dec_digit n = (48 \<le> n \<and> n \<le> 57)"


text \<open>
  Two values are the same name up to letter case when both are strings with equal
  lower-case forms, as the runtime's \<open>toLowerCase\<close> gives them. Two records clash when
  they share a username or an email in that sense; a collection has unique names when no
  two of its records clash.
\<close>

fun ci_equal :: "lowering \<Rightarrow> jsval \<Rightarrow> jsval \<Rightarrow> bool" where
  "ci_equal toLowerCase (JStr a) (JStr b) = (toLowerCase a = toLowerCase b)"
| "ci_equal toLowerCase _ _ = False"

definition credentials :: "jsobj \<Rightarrow> jsval \<times> jsval" where
  "credentials u = (get_prop u ''username'', get_prop u ''email'')"

fun clash :: "lowering \<Rightarrow> jsval \<times> jsval \<Rightarrow> jsval \<times> jsval \<Rightarrow> bool" where
  "clash toLowerCase (n1, e1) (n2, e2) =
     (ci_equal toLowerCase n1 n2 \<or> ci_equal toLowerCase e1 e2)"

fun no_clash :: "lowering \<Rightarrow> (jsval \<times> jsval) list \<Rightarrow> bool" where
  "no_clash toLowerCase [] = True"
| "no_clash toLowerCase (c # cs) =
     (list_all (\<lambda>d. \<not> clash toLowerCase c d) cs \<and> no_clash toLowerCase cs)"

definition unique_names :: "lowering \<Rightarrow> jsobj list \<Rightarrow> bool" where
  "unique_names toLowerCase users = no_clash toLowerCase (map credentials users)"

text \<open>The username and the email of every stored record are strings.\<close>

fun is_string :: "jsval \<Rightarrow> bool" where
  "is_string (JStr s) = True"
| "is_string _ = False"

definition string_fields :: "jsobj list \<Rightarrow> bool" where
  "string_fields users =
     list_all (\<lambda>u. is_string (get_prop u ''username'') \<and> is_string (get_prop u ''email'')) users"

text \<open>
  A value carries no surrounding white space when \<open>trim\<close> leaves it as it is (values
  that are not strings never reach \<open>trim\<close> in a create that succeeds).
\<close>

fun unpadded :: "jsval \<Rightarrow> bool" where
  "unpadded (JStr s) = (trim s = s)"
| "unpadded _ = True"

text \<open>
  A string value is in settled lower case when lower-casing its lower-case form changes
  nothing more: \<open>toLowerCase (toLowerCase s) = toLowerCase s\<close>. (Every Basic Latin
  string is, under a lowering that \<open>lowers_basic_latin\<close>.)
\<close>

fun lower_settled :: "lowering \<Rightarrow> jsval \<Rightarrow> bool" where
  "lower_settled toLowerCase (JStr s) = (toLowerCase (toLowerCase s) = toLowerCase s)"
| "lower_settled toLowerCase _ = True"

text \<open>
  The requests under which uniqueness of names is kept: a create whose username and email
  carry no surrounding white space and whose email is in settled lower case, an update
  that sets neither username nor email, and every read and delete.
\<close>

fun keeps_names :: "lowering \<Rightarrow> request \<Rightarrow> bool" where
  "keeps_names toLowerCase (Create body now) =
     (unpadded (get_prop body ''username'') \<and> unpadded (get_prop body ''email'') \<and>
      lower_settled toLowerCase (get_prop body ''email''))"
| "keeps_names toLowerCase (Update ident updates now) =
     (updates ''username'' = None \<and> updates ''email'' = None)"
| "keeps_names toLowerCase _ = True"

text \<open>The property names of the two public projections.\<close>

definition public_keys :: "string set" where
  "public_keys = {''id'', ''username'', ''email'', ''role'', ''createdAt''}"

definition updated_keys :: "string set" where
  "updated_keys = insert ''updatedAt'' public_keys"

section \<open>Sample requests\<close>

text \<open>The body of a registration request carrying the three required fields.\<close>

definition signup :: "jsstring \<Rightarrow> jsstring \<Rightarrow> jsobj" where
  "signup un em =
     [''username'' \<mapsto> JStr un, ''email'' \<mapsto> JStr em,
      ''password'' \<mapsto> JStr (ascii ''secret'')]"

text \<open>
  Three registrations with a delete in between: \<open>bob\<close> gets id 2, \<open>carol\<close> id 3, then
  \<open>bob\<close> is deleted and \<open>dave\<close> registers.
\<close>

definition churn :: "request list" where
  "churn =
     [Create (signup (ascii ''bob'') (ascii ''bob@x.com'')) (ascii ''2024-01-01T00:00:01.000Z''),
      Create (signup (ascii ''carol'') (ascii ''carol@x.com''))
        (ascii ''2024-01-01T00:00:02.000Z''),
      Delete (ascii ''2''),
      Create (signup (ascii ''dave'') (ascii ''dave@x.com''))
        (ascii ''2024-01-01T00:00:03.000Z'')]"

definition boot :: "jsobj list" where
  "boot = initial_users (ascii ''2024-01-01T00:00:00.000Z'')"

section \<open>Evaluation and shape lemmas\<close>

lemmas string_eval =
  ascii_def is_ws_def is_radix_digit_def digit_val_def trim_def is_dec_digit_def
  basic_latin_def basic_latin_lower_def lower_unit_def Let_def

lemmas handler_eval =
  createUser_def updateUser_def deleteUser_def getUserById_def getAllUsers_def
  same_user_def newUser_def sanitizedUser_def sanitizedUpdatedUser_def updatedUser_def
  has_id_def get_prop_def parseInt_def initial_users_def run_def signup_def churn_def boot_def

subsection \<open>Lowerings\<close>

lemma basic_latin_lower_lowers: "lowers_basic_latin basic_latin_lower"
  by (simp add: lowers_basic_latin_def)

lemma lowers_basic_latinD:
  "lowers_basic_latin toLowerCase \<Longrightarrow> basic_latin s \<Longrightarrow> toLowerCase s = basic_latin_lower s"
  by (simp add: lowers_basic_latin_def)

lemma basic_latin_lowered: "basic_latin s \<Longrightarrow> basic_latin (basic_latin_lower s)"
  by (induction s) (auto simp: basic_latin_def basic_latin_lower_def lower_unit_def)

lemma lower_unit_idem: "lower_unit (lower_unit n) = lower_unit n"
  by (simp add: lower_unit_def)

lemma basic_latin_settled:
  assumes "lowers_basic_latin toLowerCase" "basic_latin s"
  shows "toLowerCase (toLowerCase s) = toLowerCase s"
proof -
  have "toLowerCase s = basic_latin_lower s"
    using assms by (rule lowers_basic_latinD)
  moreover have "toLowerCase (basic_latin_lower s) = basic_latin_lower (basic_latin_lower s)"
    using assms(1) basic_latin_lowered[OF assms(2)] by (rule lowers_basic_latinD)
  ultimately show ?thesis
    by (simp add: basic_latin_lower_def lower_unit_idem)
qed

subsection \<open>parseInt on decimal digit strings\<close>









subsection \<open>findIndex\<close>

lemma findIndex_Some:
  "findIndex p xs = Some i \<Longrightarrow> i < length xs \<and> p (xs ! i) \<and> (\<forall>j<i. \<not> p (xs ! j))"
proof (induction xs arbitrary: i)
  case Nil
  then show ?case by simp
next
  case (Cons x xs)
  show ?case
  proof (cases "p x")
    case True
    with Cons.prems show ?thesis by simp
  next
    case False
    with Cons.prems obtain k where k: "findIndex p xs = Some k" "i = Suc k"
      by (auto split: option.splits)
    from Cons.IH[OF k(1)] False k(2) show ?thesis
      by (auto simp: less_Suc_eq_0_disj)
  qed
qed

lemma findIndex_None: "findIndex p xs = None \<longleftrightarrow> (\<forall>x\<in>set xs. \<not> p x)"
  by (induction xs) (auto split: option.splits)

lemma find_findIndex:
  "find p xs = (case findIndex p xs of None \<Rightarrow> None | Some i \<Rightarrow> Some (xs ! i))"
  by (induction xs) (auto split: option.splits)

subsection \<open>The shape of each handler's result\<close>

lemma createUser_Inr:
  assumes "createUser toLowerCase users body now = (Inr resp, users')"
  shows "\<exists>un em.
     get_prop body ''username'' = JStr un \<and> un \<noteq> [] \<and>
     get_prop body ''email'' = JStr em \<and> em \<noteq> [] \<and>
     truthy (get_prop body ''password'') \<and>
     find_existing toLowerCase (JStr un) (JStr em) users = Some None \<and>
     users' = users @
       [[''id'' \<mapsto> JNum (int (length users) + 1), ''username'' \<mapsto> JStr (trim un),
         ''email'' \<mapsto> JStr (toLowerCase (trim em)),
         ''role'' \<mapsto> (if get_prop body ''role'' = JUndefined then JStr (ascii ''user'')
                       else get_prop body ''role''),
         ''createdAt'' \<mapsto> JStr now]] \<and>
     resp = sanitizedUser (last users')"
proof -
  let ?u = "get_prop body ''username''" and ?e = "get_prop body ''email''"
  from assms have t: "truthy ?u" "truthy ?e" "truthy (get_prop body ''password'')"
    by (auto simp: createUser_def Let_def split: if_splits)
  from assms t obtain nu where
    fe: "find_existing toLowerCase ?u ?e users = Some None" and
    nu: "newUser toLowerCase users ?u ?e (if get_prop body ''role'' = JUndefined then JStr (ascii ''user'')
                       else get_prop body ''role'') now = Some nu" and
    res: "resp = sanitizedUser nu" "users' = users @ [nu]"
    by (auto simp: createUser_def Let_def split: option.splits if_splits)
  from nu obtain un em where s: "?u = JStr un" "?e = JStr em"
    by (cases ?u; cases ?e) (auto simp: newUser_def)
  with t have "un \<noteq> []" "em \<noteq> []" by auto
  with s fe nu res t show ?thesis
    by (auto simp: newUser_def)
qed

lemma createUser_Inl: "createUser toLowerCase users body now = (Inl e, users') \<Longrightarrow> users' = users"
  by (auto simp: createUser_def Let_def split: option.splits if_splits)

lemma updateUser_Inr:
  assumes "updateUser users ident updates now = (Inr resp, users')"
  shows "\<exists>userId i. parseInt ident = Some userId \<and> findIndex (has_id userId) users = Some i \<and>
     i < length users \<and> has_id userId (users ! i) \<and>
     users' = users[i := updatedUser (users ! i) updates userId now] \<and>
     resp = sanitizedUpdatedUser (updatedUser (users ! i) updates userId now)"
  using assms
  by (auto simp: updateUser_def Let_def split: option.splits dest: findIndex_Some)

lemma updateUser_Inl: "updateUser users ident updates now = (Inl e, users') \<Longrightarrow> users' = users"
  by (auto simp: updateUser_def Let_def split: option.splits)

lemma deleteUser_Inr:
  assumes "deleteUser users ident = (Inr resp, users')"
  shows "\<exists>userId i. parseInt ident = Some userId \<and> findIndex (has_id userId) users = Some i \<and>
     i < length users \<and> has_id userId (users ! i) \<and>
     users' = take i users @ drop (Suc i) users \<and>
     resp = [''id'' \<mapsto> get_prop (users ! i) ''id'',
             ''username'' \<mapsto> get_prop (users ! i) ''username'']"
  using assms
  by (auto simp: deleteUser_def Let_def split: option.splits dest: findIndex_Some)

lemma deleteUser_Inl: "deleteUser users ident = (Inl e, users') \<Longrightarrow> users' = users"
  by (auto simp: deleteUser_def Let_def split: option.splits)

subsection \<open>Uniqueness of names\<close>

lemma no_clash_snoc:
  "no_clash toLowerCase (cs @ [d]) \<longleftrightarrow> no_clash toLowerCase cs \<and> (\<forall>c\<in>set cs. \<not> clash toLowerCase c d)"
  by (induction cs) (auto simp: list_all_iff)

lemma no_clash_remove: "no_clash toLowerCase (cs @ d # ds) \<Longrightarrow> no_clash toLowerCase (cs @ ds)"
  by (induction cs) (auto simp: list_all_iff)

lemma unique_names_delete:
  assumes "unique_names toLowerCase users" "i < length users"
  shows "unique_names toLowerCase (take i users @ drop (Suc i) users)"
proof -
  have "users = take i users @ users ! i # drop (Suc i) users"
    using assms(2) by (rule id_take_nth_drop)
  then have "no_clash toLowerCase (map credentials (take i users) @ credentials (users ! i)
      # map credentials (drop (Suc i) users))"
    using assms(1) unfolding unique_names_def by (metis list.simps(9) map_append)
  from no_clash_remove[OF this] show ?thesis by (simp add: unique_names_def)
qed

lemma string_fields_delete:
  "string_fields users \<Longrightarrow> string_fields (take i users @ drop (Suc i) users)"
  by (auto simp: string_fields_def list_all_iff dest: in_set_takeD in_set_dropD)

lemma updatedUser_credentials:
  assumes "updates ''username'' = None" "updates ''email'' = None"
  shows "credentials (updatedUser u updates userId now) = credentials u"
  using assms by (simp add: credentials_def updatedUser_def get_prop_def map_add_def)

lemma names_kept_update:
  assumes "updates ''username'' = None" "updates ''email'' = None" "i < length users"
  shows "map credentials (users[i := updatedUser (users ! i) updates userId now])
     = map credentials users"
  using assms by (simp add: map_update updatedUser_credentials list_update_same_conv)

lemma string_fields_credentials:
  "string_fields users \<longleftrightarrow> (\<forall>c\<in>set (map credentials users). is_string (fst c) \<and> is_string (snd c))"
  by (auto simp: string_fields_def list_all_iff credentials_def)

lemma find_existing_none:
  assumes "find_existing toLowerCase (JStr un) (JStr em) users = Some None" "string_fields users"
  shows "\<forall>c\<in>set (map credentials users).
     \<not> ci_equal toLowerCase (fst c) (JStr un) \<and> \<not> ci_equal toLowerCase (snd c) (JStr em)"
  using assms
proof (induction users)
  case Nil
  then show ?case by simp
next
  case (Cons u us)
  from Cons.prems(2) obtain a b where
    ab: "get_prop u ''username'' = JStr a" "get_prop u ''email'' = JStr b"
    by (cases "get_prop u ''username''"; cases "get_prop u ''email''")
      (auto simp: string_fields_def)
  from Cons.prems(1) ab have
    here: "toLowerCase a \<noteq> toLowerCase un" "toLowerCase b \<noteq> toLowerCase em" and
    rest: "find_existing toLowerCase (JStr un) (JStr em) us = Some None"
    by (auto simp: same_user_def split: if_splits option.splits bool.splits)
  from Cons.prems(2) have "string_fields us" by (simp add: string_fields_def)
  from Cons.IH[OF rest this] here ab show ?case
    by (simp add: credentials_def)
qed

lemma createUser_keeps_names:
  assumes inv: "string_fields users" "unique_names toLowerCase users"
    and ok: "unpadded (get_prop body ''username'')" "unpadded (get_prop body ''email'')"
      "lower_settled toLowerCase (get_prop body ''email'')"
  shows "string_fields (snd (createUser toLowerCase users body now)) \<and>
         unique_names toLowerCase (snd (createUser toLowerCase users body now))"
proof (cases "createUser toLowerCase users body now")
  case (Pair res users')
  show ?thesis
  proof (cases res)
    case (Inl e)
    with Pair inv show ?thesis by (auto dest: createUser_Inl)
  next
    case (Inr resp)
    from createUser_Inr[OF Pair[unfolded Inr]] obtain un em nu where
      s: "get_prop body ''username'' = JStr un" "get_prop body ''email'' = JStr em" and
      fe: "find_existing toLowerCase (JStr un) (JStr em) users = Some None" and
      nu: "users' = users @ [nu]"
        "credentials nu = (JStr (trim un), JStr (toLowerCase (trim em)))"
      by (auto simp: credentials_def get_prop_def)
    from ok s have tr: "trim un = un" "trim em = em"
      "toLowerCase (toLowerCase em) = toLowerCase em" by auto
    have fresh: "\<forall>c\<in>set (map credentials users). \<not> clash toLowerCase c (credentials nu)"
    proof
      fix c assume c: "c \<in> set (map credentials users)"
      with find_existing_none[OF fe inv(1)]
      have "\<not> ci_equal toLowerCase (fst c) (JStr un)" "\<not> ci_equal toLowerCase (snd c) (JStr em)" by auto
      moreover from c inv(1) have "is_string (fst c)" "is_string (snd c)"
        unfolding string_fields_credentials by blast+
      then obtain a b where "c = (JStr a, JStr b)"
        by (cases c; cases "fst c"; cases "snd c") simp_all
      ultimately show "\<not> clash toLowerCase c (credentials nu)"
        by (simp add: nu(2) tr)
    qed
    have "unique_names toLowerCase users'"
      using inv(2) fresh by (simp add: nu(1) unique_names_def no_clash_snoc)
    moreover have "string_fields users'"
      using inv(1) nu by (simp add: string_fields_def credentials_def)
    ultimately show ?thesis using Pair by simp
  qed
qed

lemma apply_request_keeps_names:
  assumes "string_fields users \<and> unique_names toLowerCase users" "keeps_names toLowerCase req"
  shows "string_fields (apply_request toLowerCase users req) \<and> unique_names toLowerCase (apply_request toLowerCase users req)"
proof (cases req)
  case (Create body now)
  with assms createUser_keeps_names show ?thesis by simp
next
  case (Update ident updates now)
  show ?thesis
  proof (cases "updateUser users ident updates now")
    case (Pair res users')
    show ?thesis
    proof (cases res)
      case (Inl e)
      with Pair assms Update show ?thesis by (auto dest: updateUser_Inl)
    next
      case (Inr resp)
      from updateUser_Inr[OF Pair[unfolded Inr]] obtain userId i where
        i: "i < length users" "users' = users[i := updatedUser (users ! i) updates userId now]"
        by auto
      from assms(2) Update have "updates ''username'' = None" "updates ''email'' = None"
        by auto
      from names_kept_update[OF this i(1)] i(2)
      have "map credentials users' = map credentials users" by simp
      with assms(1) Pair Update show ?thesis
        by (simp add: unique_names_def string_fields_credentials)
    qed
  qed
next
  case (Delete ident)
  show ?thesis
  proof (cases "deleteUser users ident")
    case (Pair res users')
    show ?thesis
    proof (cases res)
      case (Inl e)
      with Pair assms Delete show ?thesis by (auto dest: deleteUser_Inl)
    next
      case (Inr resp)
      from deleteUser_Inr[OF Pair[unfolded Inr]] obtain i where
        "i < length users" "users' = take i users @ drop (Suc i) users"
        by auto
      with assms(1) Pair Delete show ?thesis
        by (simp add: unique_names_delete string_fields_delete)
    qed
  qed
qed (use assms in auto)

lemma run_keeps_names:
  "string_fields users \<and> unique_names toLowerCase users \<Longrightarrow> list_all (keeps_names toLowerCase) reqs \<Longrightarrow>
   string_fields (run toLowerCase reqs users) \<and> unique_names toLowerCase (run toLowerCase reqs users)"
  unfolding run_def
proof (induction reqs arbitrary: users)
  case Nil
  then show ?case by simp
next
  case (Cons r rs)
  from Cons.prems have "string_fields (apply_request toLowerCase users r) \<and> unique_names toLowerCase (apply_request toLowerCase users r)"
    using apply_request_keeps_names by simp
  from Cons.IH[OF this] Cons.prems(2) show ?case by simp
qed

lemma initial_names: "string_fields (initial_users t0) \<and> unique_names toLowerCase (initial_users t0)"
  by (simp add: initial_users_def string_fields_def unique_names_def get_prop_def)


subsection \<open>The keys of the answers\<close>

lemma dom_sanitizedUser: "dom (sanitizedUser u) = public_keys"
  by (auto simp: sanitizedUser_def public_keys_def split: if_splits)

lemma dom_sanitizedUpdatedUser: "dom (sanitizedUpdatedUser u) = updated_keys"
  by (auto simp: sanitizedUpdatedUser_def updated_keys_def public_keys_def split: if_splits)

lemma sanitizedUser_other: "k \<notin> public_keys \<Longrightarrow> sanitizedUser u k = None"
  using dom_sanitizedUser[of u] by (auto simp: domIff)

lemma sanitizedUpdatedUser_other: "k \<notin> updated_keys \<Longrightarrow> sanitizedUpdatedUser u k = None"
  using dom_sanitizedUpdatedUser[of u] by (auto simp: domIff)

lemma getUserById_Inr:
  "getUserById users ident = Inr resp \<Longrightarrow> \<exists>u\<in>set users. resp = sanitizedUser u"
  by (auto simp: getUserById_def find_Some_iff split: option.splits)

subsection \<open>The duplicate check of createUser\<close>

lemma clash_same_user:
  assumes "clash toLowerCase (credentials u) (JStr un, JStr em)"
  shows "same_user toLowerCase (JStr un) (JStr em) u \<noteq> Some False"
  using assms
  by (cases "get_prop u ''username''"; cases "get_prop u ''email''")
    (auto simp: credentials_def same_user_def)

lemma clash_same_user_strings:
  assumes "clash toLowerCase (credentials u) (JStr un, JStr em)"
    "is_string (get_prop u ''username'')" "is_string (get_prop u ''email'')"
  shows "same_user toLowerCase (JStr un) (JStr em) u = Some True"
  using assms
  by (cases "get_prop u ''username''"; cases "get_prop u ''email''")
    (auto simp: credentials_def same_user_def)

lemma same_user_strings:
  assumes "is_string (get_prop u ''username'')" "is_string (get_prop u ''email'')"
  shows "same_user toLowerCase (JStr un) (JStr em) u \<noteq> None"
  using assms
  by (cases "get_prop u ''username''"; cases "get_prop u ''email''")
    (auto simp: same_user_def)

lemma find_existing_clash:
  "\<exists>u\<in>set users. clash toLowerCase (credentials u) (JStr un, JStr em) \<Longrightarrow>
   find_existing toLowerCase (JStr un) (JStr em) users \<noteq> Some None"
proof (induction users)
  case Nil
  then show ?case by simp
next
  case (Cons u us)
  show ?case
  proof (cases "same_user toLowerCase (JStr un) (JStr em) u")
    case None
    then show ?thesis by simp
  next
    case (Some b)
    show ?thesis
    proof (cases b)
      case True
      with Some show ?thesis by simp
    next
      case False
      with Some clash_same_user[of toLowerCase u un em] Cons.prems
      have "\<exists>u\<in>set us. clash toLowerCase (credentials u) (JStr un, JStr em)" by auto
      from Cons.IH[OF this] Some False show ?thesis by simp
    qed
  qed
qed

lemma find_existing_strings:
  "string_fields users \<Longrightarrow> find_existing toLowerCase (JStr un) (JStr em) users \<noteq> None"
proof (induction users)
  case Nil
  then show ?case by simp
next
  case (Cons u us)
  then have "same_user toLowerCase (JStr un) (JStr em) u \<noteq> None" "find_existing toLowerCase (JStr un) (JStr em) us \<noteq> None"
    using same_user_strings by (auto simp: string_fields_def)
  then show ?case by (auto split: bool.splits)
qed

lemma create_conflict_general:
  assumes "get_prop body ''username'' = JStr un" "un \<noteq> []"
    "get_prop body ''email'' = JStr em" "em \<noteq> []" "truthy (get_prop body ''password'')"
    "\<exists>u\<in>set users. clash toLowerCase (credentials u) (JStr un, JStr em)"
  shows "fst (createUser toLowerCase users body now) = Inl Conflict \<or>
         fst (createUser toLowerCase users body now) = Inl InternalError"
    and "snd (createUser toLowerCase users body now) = users"
    and "string_fields users \<Longrightarrow> createUser toLowerCase users body now = (Inl Conflict, users)"
proof -
  from find_existing_clash[OF assms(6)] have ne: "find_existing toLowerCase (JStr un) (JStr em) users \<noteq> Some None" .
  show "fst (createUser toLowerCase users body now) = Inl Conflict \<or>
         fst (createUser toLowerCase users body now) = Inl InternalError"
    using assms(1-5) ne by (auto simp: createUser_def Let_def split: option.splits)
  show "snd (createUser toLowerCase users body now) = users"
    using assms(1-5) ne by (auto simp: createUser_def Let_def split: option.splits)
  show "createUser toLowerCase users body now = (Inl Conflict, users)" if "string_fields users"
    using assms(1-5) ne find_existing_strings[OF that, of toLowerCase un em]
    by (auto simp: createUser_def Let_def split: option.splits)
qed

subsection \<open>deleteUser when identifiers are distinct\<close>

lemma findIndex_first:
  assumes "i < length xs" "p (xs ! i)" "\<forall>j<i. \<not> p (xs ! j)"
  shows "findIndex p xs = Some i"
proof (cases "findIndex p xs")
  case None
  with assms(1,2) show ?thesis by (auto simp: findIndex_None)
next
  case (Some k)
  from findIndex_Some[OF Some] assms have "\<not> k < i" "\<not> i < k" by auto
  with Some show ?thesis by simp
qed

lemma delete_with_distinct_ids:
  assumes d: "distinct (map (\<lambda>u. get_prop u ''id'') users)"
    and i: "i < length users" "get_prop (users ! i) ''id'' = JNum n"
    and p: "parseInt ident = Some n"
  shows "deleteUser users ident =
      (Inr [''id'' \<mapsto> JNum n, ''username'' \<mapsto> get_prop (users ! i) ''username''],
       take i users @ drop (Suc i) users)"
    and "getUserById (take i users @ drop (Suc i) users) ident = Inl NotFound"
proof -
  have other: "get_prop (users ! j) ''id'' \<noteq> JNum n" if "j < length users" "j \<noteq> i" for j
    using d i that by (metis (no_types, lifting) length_map nth_eq_iff_index_eq nth_map)
  then have "findIndex (has_id n) users = Some i"
    using i by (intro findIndex_first) (auto simp: has_id_def)
  then show "deleteUser users ident =
      (Inr [''id'' \<mapsto> JNum n, ''username'' \<mapsto> get_prop (users ! i) ''username''],
       take i users @ drop (Suc i) users)"
    using p i by (simp add: deleteUser_def)
  have "\<forall>u\<in>set (take i users @ drop (Suc i) users). \<not> has_id n u"
  proof
    fix u assume "u \<in> set (take i users @ drop (Suc i) users)"
    then consider "u \<in> set (take i users)" | "u \<in> set (drop (Suc i) users)" by auto
    then obtain j where "j < length users" "j \<noteq> i" "u = users ! j"
    proof cases
      case 1
      then obtain j where "j < i" "u = users ! j"
        using i(1) by (auto simp: in_set_conv_nth)
      with i(1) that[of j] show ?thesis by simp
    next
      case 2
      then obtain k where k: "k < length users - Suc i" "u = users ! (Suc i + k)"
        by (auto simp: in_set_conv_nth)
      then have "Suc i + k < length users" by arith
      with k that[of "Suc i + k"] show ?thesis by simp
    qed
    with other show "\<not> has_id n u" by (simp add: has_id_def)
  qed
  then have "find (has_id n) (take i users @ drop (Suc i) users) = None"
    by (auto simp: find_None_iff)
  then show "getUserById (take i users @ drop (Suc i) users) ident = Inl NotFound"
    using p by (simp add: getUserById_def)
qed

lemma delete_unknown_id:
  assumes "parseInt ident = Some n" "\<forall>u\<in>set users. get_prop u ''id'' \<noteq> JNum n"
  shows "deleteUser users ident = (Inl NotFound, users)"
proof -
  from assms(2) have "findIndex (has_id n) users = None"
    by (simp add: findIndex_None has_id_def)
  with assms(1) show ?thesis by (simp add: deleteUser_def)
qed

subsection \<open>White space beyond ASCII\<close>

lemma trim_no_break_space: "trim (ascii ''bob'' @ [160]) = ascii ''bob''"
  by (simp add: string_eval)

lemma padded_by_no_break_space: "\<not> unpadded (JStr (ascii ''bob'' @ [160]))"
  by (simp add: string_eval)

lemma parseInt_skips_no_break_space: "parseInt (160 # ascii ''1'') = Some 1"
  by (simp add: parseInt_def string_eval)

subsection \<open>Sample runs under every lowering of Basic Latin\<close>

lemma update_breaks_unique_names:
  "lowers_basic_latin toLowerCase \<Longrightarrow>
   \<not> unique_names toLowerCase
     (run toLowerCase
        [Create (signup (ascii ''bob'') (ascii ''bob@x.com'')) (ascii ''2024-01-01T00:00:01.000Z''),
         Update (ascii ''2'') [''username'' \<mapsto> JStr (ascii ''ADMIN'')]
           (ascii ''2024-01-01T00:00:02.000Z'')]
        boot)"
  by (simp add: handler_eval string_eval unique_names_def credentials_def lowers_basic_latinD)

lemma conflict_missed:
  assumes "lowers_basic_latin toLowerCase"
  shows "ci_equal toLowerCase
     (get_prop (hd (snd (updateUser boot (ascii ''1'') [''username'' \<mapsto> JNum 5]
        (ascii ''2024-01-01T00:00:01.000Z'')))) ''email'')
     (JStr (ascii ''admin@company.com''))"
    and "fst (createUser toLowerCase
          (snd (updateUser boot (ascii ''1'') [''username'' \<mapsto> JNum 5]
             (ascii ''2024-01-01T00:00:01.000Z'')))
          (signup (ascii ''eve'') (ascii ''admin@company.com''))
          (ascii ''2024-01-01T00:00:02.000Z'')) = Inl InternalError"
    and "toLowerCase (ascii ''Bob '') = toLowerCase (ascii ''bob '')"
    and "map (\<lambda>u. get_prop u ''username'')
     (run toLowerCase
        [Create (signup (ascii ''Bob '') (ascii ''b1@x.com'')) (ascii ''2024-01-01T00:00:01.000Z''),
         Create (signup (ascii ''bob '') (ascii ''b2@x.com'')) (ascii ''2024-01-01T00:00:02.000Z'')]
        boot)
     = [JStr (ascii ''admin''), JStr (ascii ''Bob''), JStr (ascii ''bob'')]"
  using assms by (simp_all add: handler_eval string_eval lowers_basic_latinD)


lemma guards_before_conflict:
  "createUser toLowerCase boot
     [''username'' \<mapsto> JStr (ascii ''admin''), ''email'' \<mapsto> JStr (ascii ''a@x.com'')]
     (ascii ''2024-01-01T00:00:01.000Z'') = (Inl ValidationError, boot)"
  "createUser toLowerCase boot
     [''username'' \<mapsto> JNum 5, ''email'' \<mapsto> JStr (ascii ''admin@company.com''),
      ''password'' \<mapsto> JStr (ascii ''p'')]
     (ascii ''2024-01-01T00:00:01.000Z'') = (Inl InternalError, boot)"
  by (simp_all add: createUser_def same_user_def get_prop_def boot_def initial_users_def Let_def
      ascii_def)

section \<open>The claims\<close>

subsection \<open>C1: identifiers after a delete\<close>

text \<open>
  C1: every successful create returns an id strictly greater than every id assigned
  before, and no reachable state holds two records with the same id.

  \<open>createUser\<close> takes \<open>users.length + 1\<close> as the new id, and \<open>deleteUser\<close> shortens the
  array. After \<open>churn\<close> (register bob and carol, delete bob, register dave) the create of
  dave answers with id 3, the id carol holds, and the collection holds two records of
  id 3. The run goes so under every lowering that \<open>lowers_basic_latin\<close>, the runtime's
  among them.
\<close>

theorem create_reuses_id_after_delete:
  "lowers_basic_latin toLowerCase \<Longrightarrow>
   map_sum id (\<lambda>r. get_prop r ''id'')
     (fst (createUser toLowerCase (run toLowerCase (butlast churn) boot)
        (signup (ascii ''dave'') (ascii ''dave@x.com''))
        (ascii ''2024-01-01T00:00:03.000Z''))) = Inr (JNum 3) \<and>
   map (\<lambda>u. (get_prop u ''id'', get_prop u ''username'')) (run toLowerCase churn boot) =
     [(JNum 1, JStr (ascii ''admin'')), (JNum 3, JStr (ascii ''carol'')),
      (JNum 3, JStr (ascii ''dave''))]"
  by (simp add: handler_eval string_eval lowers_basic_latinD)

theorem create_reuses_id_witness:
  "\<not> distinct (map (\<lambda>u. get_prop u ''id'') (run basic_latin_lower churn boot))"
proof -
  have "map (\<lambda>u. get_prop u ''id'') (run basic_latin_lower churn boot) =
      map fst (map (\<lambda>u. (get_prop u ''id'', get_prop u ''username''))
        (run basic_latin_lower churn boot))"
    by (simp add: comp_def)
  with create_reuses_id_after_delete[OF basic_latin_lower_lowers] show ?thesis by simp
qed

subsection \<open>C2: uniqueness of usernames and emails\<close>

text \<open>
  C2 as stated: in every state reachable from the initial collection by create, update
  and delete, no two stored records share a username or an email up to letter case.

  \<open>updateUser\<close> merges the request body into the record without looking at the other
  records: after registering bob (id 2), \<open>PUT /api/users/2\<close> with
  \<open>{username: "ADMIN"}\<close> leaves two records named admin up to case. The run goes so
  under every lowering that \<open>lowers_basic_latin\<close> (\<open>update_breaks_unique_names\<close>).
\<close>

theorem unique_names_counterexample:
  "\<not> unique_names basic_latin_lower
     (run basic_latin_lower
        [Create (signup (ascii ''bob'') (ascii ''bob@x.com'')) (ascii ''2024-01-01T00:00:01.000Z''),
         Update (ascii ''2'') [''username'' \<mapsto> JStr (ascii ''ADMIN'')]
           (ascii ''2024-01-01T00:00:02.000Z'')]
        boot)"
  using update_breaks_unique_names[OF basic_latin_lower_lowers] .

text \<open>
  C2 as amended: in every state reachable from the initial collection by creates whose
  username and email carry no surrounding white space and whose email is in settled
  lower case (lower-casing its lower-case form changes nothing more), by updates that set
  neither username nor email, and by deletes, the username and email of every stored
  record are strings and no two stored records share a username or an email up to letter
  case. (Nothing is said of a create whose username or email is padded with white space.)
\<close>

theorem unique_names_reachable:
  "list_all (keeps_names toLowerCase) reqs \<Longrightarrow>
   string_fields (run toLowerCase reqs (initial_users t0)) \<and>
   unique_names toLowerCase (run toLowerCase reqs (initial_users t0))"
  using run_keeps_names[OF initial_names] by blast

theorem unique_names_reachable_witness:
  "list_all (keeps_names basic_latin_lower) churn \<and>
   string_fields (run basic_latin_lower churn boot) \<and>
   unique_names basic_latin_lower (run basic_latin_lower churn boot)"
proof -
  have k: "list_all (keeps_names basic_latin_lower) churn"
    by (simp add: churn_def signup_def get_prop_def string_eval)
  from unique_names_reachable[OF k, of "ascii ''2024-01-01T00:00:00.000Z''"] k
  show ?thesis by (simp add: boot_def)
qed

subsection \<open>C3: what an update leaves alone\<close>

text \<open>
  C3 as stated: for every existing record and every partialFields, a successful update
  leaves the record's createdAt equal to its value at creation, preserves its id and
  re-stamps updatedAt.

  The merge \<open>{...users[userIndex], ...updates, id: userId, updatedAt: ...}\<close> guards \<open>id\<close>
  and \<open>updatedAt\<close> only: \<open>PUT /api/users/1\<close> with \<open>{createdAt: "1999-12-31T00:00:00.000Z"}\<close>
  replaces the creation time of the seeded record.
\<close>

theorem update_createdAt_counterexample:
  "get_prop (hd boot) ''createdAt'' = JStr (ascii ''2024-01-01T00:00:00.000Z'') \<and>
   map (\<lambda>u. get_prop u ''createdAt'')
     (snd (updateUser boot (ascii ''1'') [''createdAt'' \<mapsto> JStr (ascii ''1999-12-31T00:00:00.000Z'')]
        (ascii ''2024-01-01T00:00:05.000Z''))) = [JStr (ascii ''1999-12-31T00:00:00.000Z'')]"
  by (simp add: handler_eval string_eval)

text \<open>
  C3 as amended: a successful update changes the one record found by the id and no other;
  it preserves that record's id and stamps updatedAt with the current time, whatever
  partialFields holds; it leaves createdAt as it was when partialFields has no createdAt,
  and stores the supplied value when it has one. The answer shows the same id, createdAt
  and updatedAt as the stored record.
\<close>

theorem update_frame:
  assumes "updateUser users ident updates now = (Inr resp, users')"
  shows "\<exists>i userId. i < length users \<and> parseInt ident = Some userId \<and>
     users' = users[i := users' ! i] \<and>
     get_prop (users ! i) ''id'' = JNum userId \<and>
     get_prop (users' ! i) ''id'' = get_prop (users ! i) ''id'' \<and>
     get_prop (users' ! i) ''updatedAt'' = JStr now \<and>
     (updates ''createdAt'' = None \<longrightarrow>
        get_prop (users' ! i) ''createdAt'' = get_prop (users ! i) ''createdAt'') \<and>
     (\<forall>v. updates ''createdAt'' = Some v \<longrightarrow> get_prop (users' ! i) ''createdAt'' = v) \<and>
     get_prop resp ''id'' = get_prop (users ! i) ''id'' \<and>
     get_prop resp ''createdAt'' = get_prop (users' ! i) ''createdAt'' \<and>
     get_prop resp ''updatedAt'' = JStr now"
proof -
  from updateUser_Inr[OF assms] obtain userId i where
    p: "parseInt ident = Some userId" and i: "i < length users" and
    h: "has_id userId (users ! i)" and
    u: "users' = users[i := updatedUser (users ! i) updates userId now]" and
    r: "resp = sanitizedUpdatedUser (updatedUser (users ! i) updates userId now)"
    by blast
  let ?nu = "updatedUser (users ! i) updates userId now"
  have n: "users' ! i = ?nu" using u i by simp
  have "get_prop ?nu ''id'' = JNum userId" "get_prop ?nu ''updatedAt'' = JStr now"
    "updates ''createdAt'' = None \<longrightarrow> get_prop ?nu ''createdAt'' = get_prop (users ! i) ''createdAt''"
    "\<forall>v. updates ''createdAt'' = Some v \<longrightarrow> get_prop ?nu ''createdAt'' = v"
    by (simp_all add: updatedUser_def get_prop_def map_add_def)
  moreover have "get_prop resp ''id'' = get_prop ?nu ''id''"
    "get_prop resp ''createdAt'' = get_prop ?nu ''createdAt''"
    "get_prop resp ''updatedAt'' = get_prop ?nu ''updatedAt''"
    by (simp_all add: r sanitizedUpdatedUser_def get_prop_def)
  moreover have "users' = users[i := users' ! i]" using u n by simp
  ultimately show ?thesis using p i h n unfolding has_id_def
    by (intro exI[of _ i] exI[of _ userId]) simp
qed

theorem update_frame_witness:
  "\<exists>resp users'.
     updateUser boot (ascii ''1'') [''role'' \<mapsto> JStr (ascii ''owner'')] (ascii ''2024-01-01T00:00:05.000Z'')
       = (Inr resp, users') \<and>
     map (\<lambda>u. (get_prop u ''id'', get_prop u ''createdAt'', get_prop u ''updatedAt'')) users' =
       [(JNum 1, JStr (ascii ''2024-01-01T00:00:00.000Z''), JStr (ascii ''2024-01-01T00:00:05.000Z''))]"
proof -
  let ?nu = "updatedUser (boot ! 0) [''role'' \<mapsto> JStr (ascii ''owner'')] 1 (ascii ''2024-01-01T00:00:05.000Z'')"
  have p: "parseInt (ascii ''1'') = Some 1" by (simp add: parseInt_def string_eval)
  have b: "length boot = 1" "get_prop (boot ! 0) ''id'' = JNum 1"
    "get_prop (boot ! 0) ''createdAt'' = JStr (ascii ''2024-01-01T00:00:00.000Z'')"
    by (simp_all add: boot_def initial_users_def get_prop_def)
  have e: "updateUser boot (ascii ''1'') [''role'' \<mapsto> JStr (ascii ''owner'')] (ascii ''2024-01-01T00:00:05.000Z'')
       = (Inr (sanitizedUpdatedUser ?nu), [?nu])"
    by (simp add: updateUser_def has_id_def boot_def initial_users_def get_prop_def
        parseInt_def string_eval)
  from update_frame[OF e] p b have
    "get_prop ?nu ''id'' = JNum 1 \<and>
     get_prop ?nu ''createdAt'' = JStr (ascii ''2024-01-01T00:00:00.000Z'') \<and>
     get_prop ?nu ''updatedAt'' = JStr (ascii ''2024-01-01T00:00:05.000Z'')"
    by auto
  with e show ?thesis by simp
qed

subsection \<open>C4: which id strings are refused\<close>




subsection \<open>C5: what a successful create stores and returns\<close>

text \<open>
  C5: for every create that does not fail, the stored and returned username is the input
  trimmed, the stored and returned email is the input trimmed and lower-cased, the role
  is \<open>user\<close> when none is supplied (and the supplied one otherwise), createdAt is stamped
  with the current time, the new record is appended at the end of the collection and
  its public projection is returned. In particular, on a fresh process, creating
  \<open>{username: "alice", email: "A@X.com", password: "p"}\<close> stores the email \<open>a@x.com\<close> and
  the role \<open>user\<close>.
\<close>

theorem create_stores_normalised_record:
  "(\<forall>resp users'. createUser toLowerCase users body now = (Inr resp, users') \<longrightarrow>
      (\<exists>un em nu.
         get_prop body ''username'' = JStr un \<and> get_prop body ''email'' = JStr em \<and>
         users' = users @ [nu] \<and> resp = sanitizedUser nu \<and>
         get_prop nu ''username'' = JStr (trim un) \<and>
         get_prop nu ''email'' = JStr (toLowerCase (trim em)) \<and>
         (body ''role'' = None \<longrightarrow> get_prop nu ''role'' = JStr (ascii ''user'')) \<and>
         (get_prop body ''role'' \<noteq> JUndefined \<longrightarrow>
            get_prop nu ''role'' = get_prop body ''role'') \<and>
         get_prop nu ''createdAt'' = JStr now \<and>
         get_prop resp ''username'' = JStr (trim un) \<and>
         get_prop resp ''email'' = JStr (toLowerCase (trim em)) \<and>
         get_prop resp ''role'' = get_prop nu ''role'' \<and>
         get_prop resp ''createdAt'' = JStr now \<and>
         get_prop resp ''id'' = get_prop nu ''id'')) \<and>
   (lowers_basic_latin toLowerCase \<longrightarrow>
      map_sum id (\<lambda>r. map (get_prop r) [''username'', ''email'', ''role''])
        (fst (createUser toLowerCase (initial_users t0)
           [''username'' \<mapsto> JStr (ascii ''alice''), ''email'' \<mapsto> JStr (ascii ''A@X.com''),
            ''password'' \<mapsto> JStr (ascii ''p'')] now))
        = Inr [JStr (ascii ''alice''), JStr (ascii ''a@x.com''), JStr (ascii ''user'')] \<and>
      map (\<lambda>u. map (get_prop u) [''username'', ''email'', ''role''])
        (snd (createUser toLowerCase (initial_users t0)
           [''username'' \<mapsto> JStr (ascii ''alice''), ''email'' \<mapsto> JStr (ascii ''A@X.com''),
            ''password'' \<mapsto> JStr (ascii ''p'')] now))
        = [[JStr (ascii ''admin''), JStr (ascii ''admin@company.com''), JStr (ascii ''admin'')],
           [JStr (ascii ''alice''), JStr (ascii ''a@x.com''), JStr (ascii ''user'')]])"
proof -
  have general: "\<forall>resp users'. createUser toLowerCase users body now = (Inr resp, users') \<longrightarrow>
      (\<exists>un em nu.
         get_prop body ''username'' = JStr un \<and> get_prop body ''email'' = JStr em \<and>
         users' = users @ [nu] \<and> resp = sanitizedUser nu \<and>
         get_prop nu ''username'' = JStr (trim un) \<and>
         get_prop nu ''email'' = JStr (toLowerCase (trim em)) \<and>
         (body ''role'' = None \<longrightarrow> get_prop nu ''role'' = JStr (ascii ''user'')) \<and>
         (get_prop body ''role'' \<noteq> JUndefined \<longrightarrow>
            get_prop nu ''role'' = get_prop body ''role'') \<and>
         get_prop nu ''createdAt'' = JStr now \<and>
         get_prop resp ''username'' = JStr (trim un) \<and>
         get_prop resp ''email'' = JStr (toLowerCase (trim em)) \<and>
         get_prop resp ''role'' = get_prop nu ''role'' \<and>
         get_prop resp ''createdAt'' = JStr now \<and>
         get_prop resp ''id'' = get_prop nu ''id'')"
  proof (intro allI impI)
    fix resp users' assume a: "createUser toLowerCase users body now = (Inr resp, users')"
    define role where "role = (if get_prop body ''role'' = JUndefined then JStr (ascii ''user'')
                 else get_prop body ''role'')"
    define nu :: "jsstring \<Rightarrow> jsstring \<Rightarrow> jsobj" where "nu un em =
       [''id'' \<mapsto> JNum (int (length users) + 1), ''username'' \<mapsto> JStr (trim un),
         ''email'' \<mapsto> JStr (toLowerCase (trim em)), ''role'' \<mapsto> role,
         ''createdAt'' \<mapsto> JStr now]" for un em
    from createUser_Inr[OF a] obtain un em where
      s: "get_prop body ''username'' = JStr un" "get_prop body ''email'' = JStr em" and
      u: "users' = users @ [nu un em]" and
      r: "resp = sanitizedUser (last users')"
      unfolding nu_def role_def by blast
    have l: "resp = sanitizedUser (nu un em)" using u r by simp
    have f: "get_prop (nu un em) ''username'' = JStr (trim un)"
      "get_prop (nu un em) ''email'' = JStr (toLowerCase (trim em))"
      "get_prop (nu un em) ''role'' = role" "get_prop (nu un em) ''createdAt'' = JStr now"
      by (simp_all add: get_prop_def nu_def)
    have d: "body ''role'' = None \<longrightarrow> role = JStr (ascii ''user'')"
      "get_prop body ''role'' \<noteq> JUndefined \<longrightarrow> role = get_prop body ''role''"
      by (simp_all add: get_prop_def role_def)
    have g: "get_prop resp ''id'' = get_prop (nu un em) ''id''"
      "get_prop resp ''username'' = get_prop (nu un em) ''username''"
      "get_prop resp ''email'' = get_prop (nu un em) ''email''"
      "get_prop resp ''role'' = get_prop (nu un em) ''role''"
      "get_prop resp ''createdAt'' = get_prop (nu un em) ''createdAt''"
      unfolding l by (simp_all add: sanitizedUser_def get_prop_def)
    have "get_prop body ''username'' = JStr un \<and> get_prop body ''email'' = JStr em \<and>
         users' = users @ [nu un em] \<and> resp = sanitizedUser (nu un em) \<and>
         get_prop (nu un em) ''username'' = JStr (trim un) \<and>
         get_prop (nu un em) ''email'' = JStr (toLowerCase (trim em)) \<and>
         (body ''role'' = None \<longrightarrow> get_prop (nu un em) ''role'' = JStr (ascii ''user'')) \<and>
         (get_prop body ''role'' \<noteq> JUndefined \<longrightarrow>
            get_prop (nu un em) ''role'' = get_prop body ''role'') \<and>
         get_prop (nu un em) ''createdAt'' = JStr now \<and>
         get_prop resp ''username'' = JStr (trim un) \<and>
         get_prop resp ''email'' = JStr (toLowerCase (trim em)) \<and>
         get_prop resp ''role'' = get_prop (nu un em) ''role'' \<and>
         get_prop resp ''createdAt'' = JStr now \<and>
         get_prop resp ''id'' = get_prop (nu un em) ''id''"
      using s u l f d g by simp
    then show "\<exists>un em nu.
         get_prop body ''username'' = JStr un \<and> get_prop body ''email'' = JStr em \<and>
         users' = users @ [nu] \<and> resp = sanitizedUser nu \<and>
         get_prop nu ''username'' = JStr (trim un) \<and>
         get_prop nu ''email'' = JStr (toLowerCase (trim em)) \<and>
         (body ''role'' = None \<longrightarrow> get_prop nu ''role'' = JStr (ascii ''user'')) \<and>
         (get_prop body ''role'' \<noteq> JUndefined \<longrightarrow>
            get_prop nu ''role'' = get_prop body ''role'') \<and>
         get_prop nu ''createdAt'' = JStr now \<and>
         get_prop resp ''username'' = JStr (trim un) \<and>
         get_prop resp ''email'' = JStr (toLowerCase (trim em)) \<and>
         get_prop resp ''role'' = get_prop nu ''role'' \<and>
         get_prop resp ''createdAt'' = JStr now \<and>
         get_prop resp ''id'' = get_prop nu ''id''"
      by - (rule exI, rule exI, rule exI, assumption)
  qed
  have scenario:
    "map_sum id (\<lambda>r. map (get_prop r) [''username'', ''email'', ''role''])
     (fst (createUser toLowerCase (initial_users t0)
        [''username'' \<mapsto> JStr (ascii ''alice''), ''email'' \<mapsto> JStr (ascii ''A@X.com''),
         ''password'' \<mapsto> JStr (ascii ''p'')] now))
     = Inr [JStr (ascii ''alice''), JStr (ascii ''a@x.com''), JStr (ascii ''user'')]"
    "map (\<lambda>u. map (get_prop u) [''username'', ''email'', ''role''])
     (snd (createUser toLowerCase (initial_users t0)
        [''username'' \<mapsto> JStr (ascii ''alice''), ''email'' \<mapsto> JStr (ascii ''A@X.com''),
         ''password'' \<mapsto> JStr (ascii ''p'')] now))
     = [[JStr (ascii ''admin''), JStr (ascii ''admin@company.com''), JStr (ascii ''admin'')],
        [JStr (ascii ''alice''), JStr (ascii ''a@x.com''), JStr (ascii ''user'')]]"
    if "lowers_basic_latin toLowerCase"
    using that by (simp_all add: handler_eval string_eval lowers_basic_latinD)
  from general scenario show ?thesis by blast
qed

text \<open>
  The witness registers \<open>alice\<close> with a no-break space (U+00A0) before the name and a space
  after it, and an email with a leading space.
\<close>

theorem create_stores_normalised_record_witness:
  "\<exists>resp users'.
     createUser basic_latin_lower boot
       [''username'' \<mapsto> JStr (160 # ascii ''alice ''), ''email'' \<mapsto> JStr (ascii '' A@X.com''),
        ''password'' \<mapsto> JStr (ascii ''p'')] (ascii ''2024-01-01T00:00:01.000Z'')
       = (Inr resp, users') \<and>
     length users' = 2 \<and>
     map (get_prop resp) [''username'', ''email'', ''role'', ''createdAt''] =
       [JStr (ascii ''alice''), JStr (ascii ''a@x.com''), JStr (ascii ''user''),
        JStr (ascii ''2024-01-01T00:00:01.000Z'')] \<and>
     lowers_basic_latin basic_latin_lower \<and>
     map (\<lambda>u. get_prop u ''email'')
       (snd (createUser basic_latin_lower boot
          [''username'' \<mapsto> JStr (ascii ''alice''), ''email'' \<mapsto> JStr (ascii ''A@X.com''),
           ''password'' \<mapsto> JStr (ascii ''p'')] (ascii ''2024-01-01T00:00:01.000Z'')))
       = [JStr (ascii ''admin@company.com''), JStr (ascii ''a@x.com'')]"
proof -
  let ?body = "[''username'' \<mapsto> JStr (160 # ascii ''alice ''),
        ''email'' \<mapsto> JStr (ascii '' A@X.com''), ''password'' \<mapsto> JStr (ascii ''p'')]"
  obtain resp users' where
    e: "createUser basic_latin_lower boot ?body (ascii ''2024-01-01T00:00:01.000Z'')
        = (Inr resp, users')"
    by (simp add: createUser_def same_user_def newUser_def get_prop_def boot_def
        initial_users_def string_eval)
  have b: "length boot = 1" "get_prop ?body ''username'' = JStr (160 # ascii ''alice '')"
    "get_prop ?body ''email'' = JStr (ascii '' A@X.com'')" "?body ''role'' = None"
    "trim (160 # ascii ''alice '') = ascii ''alice''"
    "basic_latin_lower (trim (ascii '' A@X.com'')) = ascii ''a@x.com''"
    by (simp_all add: boot_def initial_users_def get_prop_def string_eval)
  from create_stores_normalised_record
    [of basic_latin_lower boot ?body "ascii ''2024-01-01T00:00:01.000Z''"] e
  obtain un em nu where
    "get_prop ?body ''username'' = JStr un" "get_prop ?body ''email'' = JStr em"
    "users' = boot @ [nu]" "get_prop resp ''username'' = JStr (trim un)"
    "get_prop resp ''email'' = JStr (basic_latin_lower (trim em))"
    "get_prop nu ''role'' = JStr (ascii ''user'')" "get_prop resp ''role'' = get_prop nu ''role''"
    "get_prop resp ''createdAt'' = JStr (ascii ''2024-01-01T00:00:01.000Z'')"
    using b(4) by blast
  moreover from create_stores_normalised_record
    [of basic_latin_lower boot ?body "ascii ''2024-01-01T00:00:01.000Z''"
       "ascii ''2024-01-01T00:00:00.000Z''"]
    basic_latin_lower_lowers
  have "map (\<lambda>u. map (get_prop u) [''username'', ''email'', ''role''])
     (snd (createUser basic_latin_lower boot
        [''username'' \<mapsto> JStr (ascii ''alice''), ''email'' \<mapsto> JStr (ascii ''A@X.com''),
         ''password'' \<mapsto> JStr (ascii ''p'')] (ascii ''2024-01-01T00:00:01.000Z'')))
     = [[JStr (ascii ''admin''), JStr (ascii ''admin@company.com''), JStr (ascii ''admin'')],
        [JStr (ascii ''alice''), JStr (ascii ''a@x.com''), JStr (ascii ''user'')]]"
    by (simp add: boot_def)
  then have "map (\<lambda>u. get_prop u ''email'')
       (snd (createUser basic_latin_lower boot
          [''username'' \<mapsto> JStr (ascii ''alice''), ''email'' \<mapsto> JStr (ascii ''A@X.com''),
           ''password'' \<mapsto> JStr (ascii ''p'')] (ascii ''2024-01-01T00:00:01.000Z'')))
       = [JStr (ascii ''admin@company.com''), JStr (ascii ''a@x.com'')]"
    by (auto simp: map_eq_Cons_conv)
  ultimately show ?thesis using b e basic_latin_lower_lowers by simp
qed

subsection \<open>C6: the duplicate check\<close>

text \<open>
  C6 as stated: for every non-empty username, email and password, create fails with
  Conflict (HTTP 409) whenever some existing record matches the supplied username or
  email up to letter case, and the collection is then unchanged; in particular, creating
  two users whose usernames differ only by letter case fails the second create.

  Both halves fail on the code. An update may store a username that is not a string;
  the duplicate check then raises on that record and the create answers 500, although a
  stored email matches the supplied one. And the check compares the raw username while
  the trimmed one is stored, so \<open>"Bob "\<close> followed by \<open>"bob "\<close> registers both. Both runs
  go as below under every lowering that \<open>lowers_basic_latin\<close> (\<open>conflict_missed\<close>).
\<close>

theorem create_conflict_counterexample:
  "ci_equal basic_latin_lower
     (get_prop (hd (snd (updateUser boot (ascii ''1'') [''username'' \<mapsto> JNum 5]
        (ascii ''2024-01-01T00:00:01.000Z'')))) ''email'')
     (JStr (ascii ''admin@company.com'')) \<and>
   fst (createUser basic_latin_lower
          (snd (updateUser boot (ascii ''1'') [''username'' \<mapsto> JNum 5]
             (ascii ''2024-01-01T00:00:01.000Z'')))
          (signup (ascii ''eve'') (ascii ''admin@company.com''))
          (ascii ''2024-01-01T00:00:02.000Z'')) = Inl InternalError \<and>
   basic_latin_lower (ascii ''Bob '') = basic_latin_lower (ascii ''bob '') \<and>
   map (\<lambda>u. get_prop u ''username'')
     (run basic_latin_lower
        [Create (signup (ascii ''Bob '') (ascii ''b1@x.com'')) (ascii ''2024-01-01T00:00:01.000Z''),
         Create (signup (ascii ''bob '') (ascii ''b2@x.com'')) (ascii ''2024-01-01T00:00:02.000Z'')]
        boot)
     = [JStr (ascii ''admin''), JStr (ascii ''Bob''), JStr (ascii ''bob'')]"
  using conflict_missed[OF basic_latin_lower_lowers] by simp

text \<open>
  C6 as amended: for every non-empty string username and email and every non-empty
  password, if some stored record matches the supplied username or email up to letter
  case, then create fails and leaves the collection unchanged; it fails with Conflict
  (HTTP 409) when the username and email of every stored record are strings, and with
  Conflict or the 500 answer otherwise. In particular, when the stored fields are strings
  and a first create with a username carrying no surrounding white space has succeeded,
  a second create with a non-empty email and password whose username differs from the
  first only by letter case fails with Conflict.
\<close>

theorem create_conflict:
  "(get_prop body ''username'' = JStr un \<and> un \<noteq> [] \<and>
    get_prop body ''email'' = JStr em \<and> em \<noteq> [] \<and> truthy (get_prop body ''password'') \<and>
    (\<exists>u\<in>set users. clash toLowerCase (credentials u) (JStr un, JStr em)) \<longrightarrow>
      (string_fields users \<longrightarrow> createUser toLowerCase users body now = (Inl Conflict, users)) \<and>
      (fst (createUser toLowerCase users body now) = Inl Conflict \<or>
       fst (createUser toLowerCase users body now) = Inl InternalError) \<and>
      snd (createUser toLowerCase users body now) = users) \<and>
   (string_fields users \<and> createUser toLowerCase users body1 now1 = (Inr resp1, users1) \<and>
    get_prop body1 ''username'' = JStr un1 \<and> trim un1 = un1 \<and>
    get_prop body2 ''username'' = JStr un2 \<and> un2 \<noteq> [] \<and>
    toLowerCase un2 = toLowerCase un1 \<and>
    get_prop body2 ''email'' = JStr em2 \<and> em2 \<noteq> [] \<and> truthy (get_prop body2 ''password'') \<longrightarrow>
      createUser toLowerCase users1 body2 now2 = (Inl Conflict, users1)) \<and>
   error_status Conflict = 409"
proof -
  have second: "createUser toLowerCase users1 body2 now2 = (Inl Conflict, users1)"
    if sf: "string_fields users"
      and c1: "createUser toLowerCase users body1 now1 = (Inr resp1, users1)"
      and n1: "get_prop body1 ''username'' = JStr un1" "trim un1 = un1"
      and n2: "get_prop body2 ''username'' = JStr un2" "un2 \<noteq> []"
        "toLowerCase un2 = toLowerCase un1"
      and e2: "get_prop body2 ''email'' = JStr em2" "em2 \<noteq> []"
      and p2: "truthy (get_prop body2 ''password'')"
  proof -
    from createUser_Inr[OF c1] n1 obtain em1 nu where
      u1: "users1 = users @ [nu]" and
      cr: "credentials nu = (JStr un1, JStr (toLowerCase (trim em1)))"
      by (auto simp: credentials_def get_prop_def)
    have "string_fields users1"
      using sf u1 cr by (simp add: string_fields_def credentials_def)
    moreover have "\<exists>u\<in>set users1. clash toLowerCase (credentials u) (JStr un2, JStr em2)"
      using u1 cr n2(3) by auto
    ultimately show ?thesis
      using create_conflict_general(3)[OF n2(1,2) e2 p2] by blast
  qed
  show ?thesis
    using create_conflict_general[of body un em users toLowerCase now] second by auto
qed

text \<open>
  The witness has the seeded \<open>admin\<close> against \<open>Admin\<close>, and \<open>Bob\<close> followed by \<open>bOB\<close>.
\<close>

theorem create_conflict_witness:
  "string_fields boot \<and>
   createUser basic_latin_lower boot (signup (ascii ''Admin'') (ascii ''root@x.com''))
     (ascii ''2024-01-01T00:00:01.000Z'') = (Inl Conflict, boot) \<and>
   createUser basic_latin_lower
     (snd (createUser basic_latin_lower boot (signup (ascii ''Bob'') (ascii ''b1@x.com''))
        (ascii ''2024-01-01T00:00:01.000Z'')))
     (signup (ascii ''bOB'') (ascii ''b2@x.com'')) (ascii ''2024-01-01T00:00:02.000Z'')
     = (Inl Conflict,
        snd (createUser basic_latin_lower boot (signup (ascii ''Bob'') (ascii ''b1@x.com''))
          (ascii ''2024-01-01T00:00:01.000Z'')))"
proof -
  let ?L = basic_latin_lower
  let ?admin = "signup (ascii ''Admin'') (ascii ''root@x.com'')"
  let ?bob1 = "signup (ascii ''Bob'') (ascii ''b1@x.com'')"
  let ?bob2 = "signup (ascii ''bOB'') (ascii ''b2@x.com'')"
  have sf: "string_fields boot"
    by (simp add: string_fields_def boot_def initial_users_def get_prop_def)
  have a: "get_prop ?admin ''username'' = JStr (ascii ''Admin'')" "ascii ''Admin'' \<noteq> []"
    "get_prop ?admin ''email'' = JStr (ascii ''root@x.com'')" "ascii ''root@x.com'' \<noteq> []"
    "truthy (get_prop ?admin ''password'')"
    "\<exists>u\<in>set boot. clash ?L (credentials u) (JStr (ascii ''Admin''), JStr (ascii ''root@x.com''))"
    by (simp_all add: signup_def get_prop_def boot_def initial_users_def credentials_def
        string_eval)
  obtain r1 us1 where
    c1: "createUser ?L boot ?bob1 (ascii ''2024-01-01T00:00:01.000Z'') = (Inr r1, us1)"
    by (simp add: createUser_def same_user_def newUser_def get_prop_def boot_def
        initial_users_def signup_def string_eval)
  have b: "get_prop ?bob1 ''username'' = JStr (ascii ''Bob'')"
    "trim (ascii ''Bob'') = ascii ''Bob''"
    "get_prop ?bob2 ''username'' = JStr (ascii ''bOB'')" "ascii ''bOB'' \<noteq> []"
    "?L (ascii ''bOB'') = ?L (ascii ''Bob'')"
    "get_prop ?bob2 ''email'' = JStr (ascii ''b2@x.com'')" "ascii ''b2@x.com'' \<noteq> []"
    "truthy (get_prop ?bob2 ''password'')"
    by (simp_all add: signup_def get_prop_def string_eval)
  from create_conflict[where toLowerCase = ?L and users = boot and body = ?admin
      and un = "ascii ''Admin''" and em = "ascii ''root@x.com''"
      and now = "ascii ''2024-01-01T00:00:01.000Z''"
      and ?body1.0 = ?bob1 and ?now1.0 = "ascii ''2024-01-01T00:00:01.000Z''"
      and ?resp1.0 = r1 and ?users1.0 = us1 and ?un1.0 = "ascii ''Bob''"
      and ?body2.0 = ?bob2 and ?un2.0 = "ascii ''bOB''" and ?em2.0 = "ascii ''b2@x.com''"
      and ?now2.0 = "ascii ''2024-01-01T00:00:02.000Z''"]
    sf a b c1
  show ?thesis by simp
qed

subsection \<open>C7: deleting by id\<close>

text \<open>
  C7: for every record present in the collection, delete with that record's id removes
  exactly that record and returns its id and username, and a getById on the same id then
  fails with NotFound; delete of an id no record has fails with NotFound and leaves the
  collection unchanged.

  The handler does so whenever the stored ids are pairwise distinct
  (\<open>delete_with_distinct_ids\<close>, \<open>delete_unknown_id\<close>). They are not in every reachable
  state: after \<open>churn\<close> carol and dave both hold id 3. \<open>DELETE /api/users/3\<close> then removes
  carol, answers with carol's name, and \<open>GET /api/users/3\<close> still finds dave. The run
  goes so under every lowering that \<open>lowers_basic_latin\<close>.
\<close>

theorem delete_by_shared_id:
  "lowers_basic_latin toLowerCase \<Longrightarrow>
   map (\<lambda>u. (get_prop u ''id'', get_prop u ''username'')) (run toLowerCase churn boot) =
     [(JNum 1, JStr (ascii ''admin'')), (JNum 3, JStr (ascii ''carol'')), (JNum 3, JStr (ascii ''dave''))] \<and>
   map_sum id (\<lambda>r. (get_prop r ''id'', get_prop r ''username''))
     (fst (deleteUser (run toLowerCase churn boot) (ascii ''3''))) = Inr (JNum 3, JStr (ascii ''carol'')) \<and>
   map (\<lambda>u. (get_prop u ''id'', get_prop u ''username''))
     (snd (deleteUser (run toLowerCase churn boot) (ascii ''3''))) =
     [(JNum 1, JStr (ascii ''admin'')), (JNum 3, JStr (ascii ''dave''))] \<and>
   map_sum id (\<lambda>r. get_prop r ''username'')
     (getUserById (snd (deleteUser (run toLowerCase churn boot) (ascii ''3''))) (ascii ''3'')) = Inr (JStr (ascii ''dave''))"
  by (simp add: handler_eval string_eval lowers_basic_latinD)

theorem delete_by_shared_id_witness:
  "lowers_basic_latin basic_latin_lower \<and>
   map_sum id (\<lambda>r. get_prop r ''username'')
     (fst (deleteUser (run basic_latin_lower churn boot) (ascii ''3''))) = Inr (JStr (ascii ''carol'')) \<and>
   getUserById (snd (deleteUser (run basic_latin_lower churn boot) (ascii ''3''))) (ascii ''3'')
     \<noteq> Inl NotFound"
proof -
  have "map_sum id (\<lambda>r. get_prop r ''username'')
      (getUserById (snd (deleteUser (run basic_latin_lower churn boot) (ascii ''3''))) (ascii ''3''))
      \<noteq> Inl NotFound"
    using delete_by_shared_id[OF basic_latin_lower_lowers] by simp
  then have "getUserById (snd (deleteUser (run basic_latin_lower churn boot) (ascii ''3'')))
      (ascii ''3'') \<noteq> Inl NotFound"
    by auto
  moreover have "map_sum id (\<lambda>r. get_prop r ''username'')
     (fst (deleteUser (run basic_latin_lower churn boot) (ascii ''3'')))
     = Inr (JStr (ascii ''carol''))"
    using delete_by_shared_id[OF basic_latin_lower_lowers]
    by (cases "fst (deleteUser (run basic_latin_lower churn boot) (ascii ''3''))") auto
  ultimately show ?thesis using basic_latin_lower_lowers by simp
qed

subsection \<open>C8: no password in any answer\<close>

text \<open>
  C8: for every state of the collection and every input, the \<open>data\<close> of a success answer
  of listAll, getById and create has exactly the properties id, username, email, role and
  createdAt, that of update has updatedAt as well, and that of delete has id and username;
  none has a property \<open>password\<close>.
\<close>

theorem responses_omit_password:
  "(\<forall>r\<in>set (getAllUsers users). dom r = public_keys \<and> r ''password'' = None) \<and>
   (\<forall>r. getUserById users ident = Inr r \<longrightarrow> dom r = public_keys \<and> r ''password'' = None) \<and>
   (\<forall>r. fst (createUser toLowerCase users body now) = Inr r \<longrightarrow>
      dom r = public_keys \<and> r ''password'' = None) \<and>
   (\<forall>r. fst (updateUser users ident updates now) = Inr r \<longrightarrow>
      dom r = updated_keys \<and> r ''password'' = None) \<and>
   (\<forall>r. fst (deleteUser users ident) = Inr r \<longrightarrow>
      dom r = {''id'', ''username''} \<and> r ''password'' = None)"
proof -
  have pk: "''password'' \<notin> public_keys" "''password'' \<notin> updated_keys"
    by (simp_all add: public_keys_def updated_keys_def)
  have a: "\<forall>r\<in>set (getAllUsers users). dom r = public_keys \<and> r ''password'' = None"
    using pk by (simp add: getAllUsers_def dom_sanitizedUser sanitizedUser_other)
  have b: "\<forall>r. getUserById users ident = Inr r \<longrightarrow> dom r = public_keys \<and> r ''password'' = None"
  proof (intro allI impI)
    fix r assume "getUserById users ident = Inr r"
    then obtain u where "r = sanitizedUser u" using getUserById_Inr by blast
    with pk show "dom r = public_keys \<and> r ''password'' = None"
      by (simp add: dom_sanitizedUser sanitizedUser_other)
  qed
  have c: "\<forall>r. fst (createUser toLowerCase users body now) = Inr r \<longrightarrow>
      dom r = public_keys \<and> r ''password'' = None"
  proof (intro allI impI)
    fix r assume "fst (createUser toLowerCase users body now) = Inr r"
    then obtain us where "createUser toLowerCase users body now = (Inr r, us)"
      by (cases "createUser toLowerCase users body now") simp
    from createUser_Inr[OF this] obtain u where "r = sanitizedUser u" by blast
    with pk show "dom r = public_keys \<and> r ''password'' = None"
      by (simp add: dom_sanitizedUser sanitizedUser_other)
  qed
  have d: "\<forall>r. fst (updateUser users ident updates now) = Inr r \<longrightarrow>
      dom r = updated_keys \<and> r ''password'' = None"
  proof (intro allI impI)
    fix r assume "fst (updateUser users ident updates now) = Inr r"
    then obtain us where "updateUser users ident updates now = (Inr r, us)"
      by (cases "updateUser users ident updates now") simp
    from updateUser_Inr[OF this] obtain u where "r = sanitizedUpdatedUser u" by blast
    with pk show "dom r = updated_keys \<and> r ''password'' = None"
      by (simp add: dom_sanitizedUpdatedUser sanitizedUpdatedUser_other)
  qed
  have e: "\<forall>r. fst (deleteUser users ident) = Inr r \<longrightarrow>
      dom r = {''id'', ''username''} \<and> r ''password'' = None"
  proof (intro allI impI)
    fix r assume "fst (deleteUser users ident) = Inr r"
    then obtain us where "deleteUser users ident = (Inr r, us)"
      by (cases "deleteUser users ident") simp
    from deleteUser_Inr[OF this] show "dom r = {''id'', ''username''} \<and> r ''password'' = None"
      by (auto split: if_splits)
  qed
  from a b c d e show ?thesis by blast
qed

theorem responses_omit_password_witness:
  "map (\<lambda>u. u ''password'')
     (snd (updateUser boot (ascii ''1'') [''password'' \<mapsto> JStr (ascii ''hunter2'')] (ascii ''2024-01-01T00:00:01.000Z'')))
     = [Some (JStr (ascii ''hunter2''))] \<and>
   map (\<lambda>r. r ''password'')
     (getAllUsers (snd (updateUser boot (ascii ''1'') [''password'' \<mapsto> JStr (ascii ''hunter2'')]
        (ascii ''2024-01-01T00:00:01.000Z'')))) = [None] \<and>
   map_sum id (\<lambda>r. (get_prop r ''username'', r ''password''))
     (getUserById (snd (updateUser boot (ascii ''1'') [''password'' \<mapsto> JStr (ascii ''hunter2'')]
        (ascii ''2024-01-01T00:00:01.000Z''))) (ascii ''1'')) = Inr (JStr (ascii ''admin''), None) \<and>
   map_sum id (\<lambda>r. (get_prop r ''username'', r ''password''))
     (fst (createUser basic_latin_lower boot (signup (ascii ''bob'') (ascii ''bob@x.com'')) (ascii ''2024-01-01T00:00:01.000Z'')))
     = Inr (JStr (ascii ''bob''), None) \<and>
   map_sum id (\<lambda>r. (get_prop r ''username'', r ''password''))
     (fst (updateUser boot (ascii ''1'') [''password'' \<mapsto> JStr (ascii ''hunter2'')] (ascii ''2024-01-01T00:00:01.000Z'')))
     = Inr (JStr (ascii ''admin''), None) \<and>
   map_sum id (\<lambda>r. (get_prop r ''username'', r ''password''))
     (fst (deleteUser boot (ascii ''1''))) = Inr (JStr (ascii ''admin''), None)"
proof -
  let ?upd = "[''password'' \<mapsto> JStr (ascii ''hunter2'')]"
  let ?t = "ascii ''2024-01-01T00:00:01.000Z''"
  let ?us = "snd (updateUser boot (ascii ''1'') ?upd ?t)"
  let ?bob = "signup (ascii ''bob'') (ascii ''bob@x.com'')"
  obtain r1 r2 r3 r4 u2 u3 u4 nu where
    st: "?us = [nu]" "nu ''password'' = Some (JStr (ascii ''hunter2''))" and
    e1: "getUserById ?us (ascii ''1'') = Inr r1" "get_prop r1 ''username'' = JStr (ascii ''admin'')" and
    e2: "createUser basic_latin_lower boot ?bob ?t = (Inr r2, u2)" "get_prop r2 ''username'' = JStr (ascii ''bob'')" and
    e3: "updateUser boot (ascii ''1'') ?upd ?t = (Inr r3, u3)" "get_prop r3 ''username'' = JStr (ascii ''admin'')" and
    e4: "deleteUser boot (ascii ''1'') = (Inr r4, u4)" "get_prop r4 ''username'' = JStr (ascii ''admin'')"
    by (simp add: handler_eval string_eval)
  have all: "\<forall>r\<in>set (getAllUsers ?us). r ''password'' = None"
    and "r1 ''password'' = None" "r2 ''password'' = None" "r3 ''password'' = None"
      "r4 ''password'' = None"
    using responses_omit_password[of ?us "ascii ''1''" basic_latin_lower ?bob ?t ?upd]
      responses_omit_password[of boot "ascii ''1''" basic_latin_lower ?bob ?t ?upd] e1 e2 e3 e4
    by simp_all
  moreover have "length (getAllUsers ?us) = 1" by (simp add: st getAllUsers_def)
  ultimately show ?thesis using st e1 e2 e3 e4
    by (cases "getAllUsers ?us") simp_all
qed

subsection \<open>C9: the seeded administrator\<close>

text \<open>
  C9 as stated: at process start the collection holds exactly one record, with id 1,
  username \<open>admin\<close>, email \<open>admin@company.com\<close> and role \<open>admin\<close>, so listAll returns one
  element; and the first create with username \<open>admin\<close> in any letter case, or with email
  \<open>admin@company.com\<close>, fails with Conflict.

  The duplicate check runs after the required-field check and calls \<open>toLowerCase\<close> on the
  supplied username: a create with username \<open>admin\<close> and no password fails with
  ValidationError, and one with the seeded email and the number 5 as username answers
  500, whatever \<open>toLowerCase\<close> computes (\<open>guards_before_conflict\<close>).
\<close>

theorem seeded_admin_counterexample:
  "createUser basic_latin_lower boot
     [''username'' \<mapsto> JStr (ascii ''admin''), ''email'' \<mapsto> JStr (ascii ''a@x.com'')]
     (ascii ''2024-01-01T00:00:01.000Z'') = (Inl ValidationError, boot) \<and>
   createUser basic_latin_lower boot
     [''username'' \<mapsto> JNum 5, ''email'' \<mapsto> JStr (ascii ''admin@company.com''),
      ''password'' \<mapsto> JStr (ascii ''p'')]
     (ascii ''2024-01-01T00:00:01.000Z'') = (Inl InternalError, boot)"
  using guards_before_conflict[of basic_latin_lower] by simp

text \<open>
  C9 as amended: at process start the collection holds exactly one record, with id 1,
  username \<open>admin\<close>, email \<open>admin@company.com\<close>, role \<open>admin\<close> and the load time as
  createdAt, so listAll returns one element; and the first create fails with Conflict
  when its username is a non-empty string equal to \<open>admin\<close> up to letter case and its
  email and password are not empty, or when its username is a non-empty string, its
  password is not empty and its email is a string equal to \<open>admin@company.com\<close> up to
  letter case. (Equal up to letter case: \<open>toLowerCase\<close> gives the same string for both.)
\<close>

theorem seeded_admin:
  "map (\<lambda>u. map (get_prop u) [''id'', ''username'', ''email'', ''role'', ''createdAt''])
     (initial_users t0) =
     [[JNum 1, JStr (ascii ''admin''), JStr (ascii ''admin@company.com''),
       JStr (ascii ''admin''), JStr t0]] \<and>
   map dom (initial_users t0) = [public_keys] \<and>
   length (getAllUsers (initial_users t0)) = 1 \<and>
   (get_prop body ''username'' = JStr un \<and> un \<noteq> [] \<and>
    toLowerCase un = toLowerCase (ascii ''admin'') \<and>
    truthy (get_prop body ''email'') \<and> truthy (get_prop body ''password'') \<longrightarrow>
      createUser toLowerCase (initial_users t0) body now = (Inl Conflict, initial_users t0)) \<and>
   (get_prop body ''username'' = JStr un \<and> un \<noteq> [] \<and>
    get_prop body ''email'' = JStr em \<and> em \<noteq> [] \<and>
    toLowerCase em = toLowerCase (ascii ''admin@company.com'') \<and>
    truthy (get_prop body ''password'') \<longrightarrow>
      createUser toLowerCase (initial_users t0) body now = (Inl Conflict, initial_users t0))"
proof -
  have seed: "map (\<lambda>u. map (get_prop u) [''id'', ''username'', ''email'', ''role'', ''createdAt''])
     (initial_users t0) =
     [[JNum 1, JStr (ascii ''admin''), JStr (ascii ''admin@company.com''),
       JStr (ascii ''admin''), JStr t0]]"
    "map dom (initial_users t0) = [public_keys]"
    "length (getAllUsers (initial_users t0)) = 1"
    by (auto simp: initial_users_def get_prop_def public_keys_def getAllUsers_def)
  have by_name: "createUser toLowerCase (initial_users t0) body now = (Inl Conflict, initial_users t0)"
    if "get_prop body ''username'' = JStr un" "un \<noteq> []"
      "toLowerCase un = toLowerCase (ascii ''admin'')"
      "truthy (get_prop body ''email'')" "truthy (get_prop body ''password'')"
    using that
    by (simp add: createUser_def same_user_def initial_users_def Let_def)
      (simp add: get_prop_def)
  have by_mail: "createUser toLowerCase (initial_users t0) body now = (Inl Conflict, initial_users t0)"
    if "get_prop body ''username'' = JStr un" "un \<noteq> []"
      "get_prop body ''email'' = JStr em" "em \<noteq> []"
      "toLowerCase em = toLowerCase (ascii ''admin@company.com'')"
      "truthy (get_prop body ''password'')"
    using that
    by (simp add: createUser_def same_user_def initial_users_def Let_def)
      (simp add: get_prop_def)
  from seed by_name by_mail show ?thesis by blast
qed

theorem seeded_admin_witness:
  "createUser basic_latin_lower boot (signup (ascii ''ADMIN'') (ascii ''root@x.com''))
     (ascii ''2024-01-01T00:00:01.000Z'') = (Inl Conflict, boot) \<and>
   createUser basic_latin_lower boot (signup (ascii ''root'') (ascii ''Admin@Company.com''))
     (ascii ''2024-01-01T00:00:01.000Z'') = (Inl Conflict, boot)"
proof -
  let ?L = basic_latin_lower
  let ?a = "signup (ascii ''ADMIN'') (ascii ''root@x.com'')"
  let ?r = "signup (ascii ''root'') (ascii ''Admin@Company.com'')"
  have a: "get_prop ?a ''username'' = JStr (ascii ''ADMIN'')" "ascii ''ADMIN'' \<noteq> []"
    "?L (ascii ''ADMIN'') = ?L (ascii ''admin'')"
    "truthy (get_prop ?a ''email'')" "truthy (get_prop ?a ''password'')"
    "get_prop ?r ''username'' = JStr (ascii ''root'')" "ascii ''root'' \<noteq> []"
    "get_prop ?r ''email'' = JStr (ascii ''Admin@Company.com'')"
    "ascii ''Admin@Company.com'' \<noteq> []"
    "?L (ascii ''Admin@Company.com'') = ?L (ascii ''admin@company.com'')"
    "truthy (get_prop ?r ''password'')"
    by (simp_all add: signup_def get_prop_def string_eval)
  from seeded_admin[where ?t0.0 = "ascii ''2024-01-01T00:00:00.000Z''" and body = ?a
      and un = "ascii ''ADMIN''" and toLowerCase = ?L
      and now = "ascii ''2024-01-01T00:00:01.000Z''"]
    seeded_admin[where ?t0.0 = "ascii ''2024-01-01T00:00:00.000Z''" and body = ?r
      and un = "ascii ''root''" and em = "ascii ''Admin@Company.com''" and toLowerCase = ?L
      and now = "ascii ''2024-01-01T00:00:01.000Z''"]
    a
  show ?thesis by (simp add: boot_def)
qed

subsection \<open>C10: what an update copies and what it shows\<close>

text \<open>
  C10 as stated: every key of partialFields except \<open>id\<close> is copied verbatim into the
  stored record, and the answer of update has exactly the properties id, username, email,
  role, createdAt and updatedAt, so a property injected this way never shows in a later
  answer.

  \<open>updatedAt\<close> is not copied either: it is written after the spread, so
  \<open>PUT /api/users/1\<close> with \<open>{updatedAt: "yesterday"}\<close> stores the current time.
\<close>

theorem update_copy_counterexample:
  "map (\<lambda>u. get_prop u ''updatedAt'')
     (snd (updateUser boot (ascii ''1'') [''updatedAt'' \<mapsto> JStr (ascii ''yesterday'')]
        (ascii ''2024-01-01T00:00:05.000Z''))) = [JStr (ascii ''2024-01-01T00:00:05.000Z'')]"
  by (simp add: handler_eval string_eval)

text \<open>
  C10 as amended: a successful update copies every key of partialFields except \<open>id\<close> and
  \<open>updatedAt\<close> verbatim into the stored record (keys outside the data model such as
  \<open>password\<close> included) and changes no other record; its answer has exactly the properties
  id, username, email, role, createdAt and updatedAt; and in every later state no answer
  of listAll, getById or update has a property outside those six.
\<close>

theorem update_copies_fields:
  "(\<forall>resp users'. updateUser users ident updates now = (Inr resp, users') \<longrightarrow>
      (\<exists>i<length users. users' = users[i := users' ! i] \<and>
         (\<forall>k v. updates k = Some v \<and> k \<noteq> ''id'' \<and> k \<noteq> ''updatedAt'' \<longrightarrow>
                (users' ! i) k = Some v) \<and>
         dom resp = updated_keys)) \<and>
   (\<forall>k. k \<notin> updated_keys \<longrightarrow>
      (\<forall>r\<in>set (getAllUsers later). r k = None) \<and>
      (\<forall>r. getUserById later ident2 = Inr r \<longrightarrow> r k = None) \<and>
      (\<forall>r. fst (updateUser later ident2 updates2 now2) = Inr r \<longrightarrow> r k = None))"
proof -
  have first: "\<forall>resp users'. updateUser users ident updates now = (Inr resp, users') \<longrightarrow>
      (\<exists>i<length users. users' = users[i := users' ! i] \<and>
         (\<forall>k v. updates k = Some v \<and> k \<noteq> ''id'' \<and> k \<noteq> ''updatedAt'' \<longrightarrow>
                (users' ! i) k = Some v) \<and>
         dom resp = updated_keys)"
  proof (intro allI impI)
    fix resp users' assume a: "updateUser users ident updates now = (Inr resp, users')"
    from updateUser_Inr[OF a] obtain userId i where
      i: "i < length users" and
      u: "users' = users[i := updatedUser (users ! i) updates userId now]" and
      r: "resp = sanitizedUpdatedUser (updatedUser (users ! i) updates userId now)"
      by blast
    have n: "users' ! i = updatedUser (users ! i) updates userId now" using u i by simp
    have "\<forall>k v. updates k = Some v \<and> k \<noteq> ''id'' \<and> k \<noteq> ''updatedAt'' \<longrightarrow>
                (users' ! i) k = Some v"
      by (simp add: n updatedUser_def map_add_def)
    moreover have "users' = users[i := users' ! i]" using u n by simp
    moreover have "dom resp = updated_keys" by (simp add: r dom_sanitizedUpdatedUser)
    ultimately show "\<exists>i<length users. users' = users[i := users' ! i] \<and>
         (\<forall>k v. updates k = Some v \<and> k \<noteq> ''id'' \<and> k \<noteq> ''updatedAt'' \<longrightarrow>
                (users' ! i) k = Some v) \<and>
         dom resp = updated_keys"
      using i by blast
  qed
  have later: "\<forall>k. k \<notin> updated_keys \<longrightarrow>
      (\<forall>r\<in>set (getAllUsers later). r k = None) \<and>
      (\<forall>r. getUserById later ident2 = Inr r \<longrightarrow> r k = None) \<and>
      (\<forall>r. fst (updateUser later ident2 updates2 now2) = Inr r \<longrightarrow> r k = None)"
  proof (intro allI impI conjI ballI)
    fix k r assume k: "k \<notin> updated_keys" and "r \<in> set (getAllUsers later)"
    then show "r k = None"
      by (auto simp: getAllUsers_def updated_keys_def sanitizedUser_other)
  next
    fix k r assume k: "k \<notin> updated_keys" and "getUserById later ident2 = Inr r"
    then show "r k = None"
      by (auto dest!: getUserById_Inr simp: updated_keys_def sanitizedUser_other)
  next
    fix k r assume k: "k \<notin> updated_keys"
      and "fst (updateUser later ident2 updates2 now2) = Inr r"
    then obtain us where "updateUser later ident2 updates2 now2 = (Inr r, us)"
      by (cases "updateUser later ident2 updates2 now2") simp
    from updateUser_Inr[OF this] k show "r k = None"
      by (auto simp: sanitizedUpdatedUser_other)
  qed
  from first later show ?thesis by blast
qed

theorem update_copies_fields_witness:
  "\<exists>resp users'.
     updateUser boot (ascii ''1'') [''password'' \<mapsto> JStr (ascii ''hunter2''), ''id'' \<mapsto> JNum 7]
        (ascii ''2024-01-01T00:00:05.000Z'') = (Inr resp, users') \<and>
     map (\<lambda>u. (u ''password'', u ''id'')) users' = [(Some (JStr (ascii ''hunter2'')), Some (JNum 1))] \<and>
     dom resp = updated_keys \<and>
     map (\<lambda>r. r ''password'') (getAllUsers users') = [None]"
proof -
  let ?upd = "[''password'' \<mapsto> JStr (ascii ''hunter2''), ''id'' \<mapsto> JNum 7]"
  let ?nu = "updatedUser (boot ! 0) ?upd 1 (ascii ''2024-01-01T00:00:05.000Z'')"
  have e: "updateUser boot (ascii ''1'') ?upd (ascii ''2024-01-01T00:00:05.000Z'')
       = (Inr (sanitizedUpdatedUser ?nu), [?nu])"
    by (simp add: updateUser_def has_id_def boot_def initial_users_def get_prop_def
        parseInt_def string_eval)
  have b: "length boot = 1" "''password'' \<notin> updated_keys"
    by (simp_all add: boot_def initial_users_def updated_keys_def public_keys_def)
  have idv: "?nu ''id'' = Some (JNum 1)" by (simp add: updatedUser_def)
  from update_copies_fields[of boot "ascii ''1''" ?upd "ascii ''2024-01-01T00:00:05.000Z''" "[?nu]"] e b
  have "?nu ''password'' = Some (JStr (ascii ''hunter2'')) \<and> dom (sanitizedUpdatedUser ?nu) = updated_keys \<and>
     (\<forall>r\<in>set (getAllUsers [?nu]). r ''password'' = None)"
    by auto
  with e idv show ?thesis by (simp add: getAllUsers_def)
qed

end
